theory Spec2Isabelle
  imports Main "HOL-Library.Word"
begin

unbundle bit_operations_syntax

type_synonym bytes = "8 word list"

section \<open>Engine error codes and the connection's error remapping\<close>

text \<open>
  The engine error codes that \<open>Connection::remapErrorCode\<close> switches over
  (daemon/connection.cc). The switch has no default branch: these are all the codes.
\<close>

datatype ENGINE_ERROR_CODE =
    ENGINE_SUCCESS
  | ENGINE_KEY_ENOENT
  | ENGINE_KEY_EEXISTS
  | ENGINE_ENOMEM
  | ENGINE_NOT_STORED
  | ENGINE_EINVAL
  | ENGINE_ENOTSUP
  | ENGINE_EWOULDBLOCK
  | ENGINE_E2BIG
  | ENGINE_DISCONNECT
  | ENGINE_NOT_MY_VBUCKET
  | ENGINE_TMPFAIL
  | ENGINE_ERANGE
  | ENGINE_ROLLBACK
  | ENGINE_EBUSY
  | ENGINE_DELTA_BADVAL
  | ENGINE_PREDICATE_FAILED
  | ENGINE_FAILED
  | ENGINE_LOCKED
  | ENGINE_LOCKED_TMPFAIL
  | ENGINE_UNKNOWN_COLLECTION
  | ENGINE_COLLECTIONS_MANIFEST_IS_AHEAD
  | ENGINE_EACCESS
  | ENGINE_NO_BUCKET
  | ENGINE_AUTH_STALE
  | ENGINE_DURABILITY_INVALID_LEVEL
  | ENGINE_DURABILITY_IMPOSSIBLE
  | ENGINE_SYNC_WRITE_IN_PROGRESS
  | ENGINE_SYNC_WRITE_RECOMMIT_IN_PROGRESS
  | ENGINE_SYNC_WRITE_AMBIGUOUS
  | ENGINE_DCP_STREAMID_INVALID

text \<open>
  \<open>Connection::remapErrorCode\<close>. The two feature flags it reads are passed in:
  \<open>xerror_support\<close> and \<open>isCollectionsSupported()\<close>. The case order is the
  source's; the codes that \<open>break\<close> out of the switch reach the final
  \<open>return ENGINE_DISCONNECT\<close>.
\<close>

fun remapErrorCode :: "bool \<Rightarrow> bool \<Rightarrow> ENGINE_ERROR_CODE \<Rightarrow> ENGINE_ERROR_CODE" where
  "remapErrorCode xerror_support collections code =
     (if xerror_support then code
      else (case code of
          ENGINE_SUCCESS \<Rightarrow> code
        | ENGINE_KEY_ENOENT \<Rightarrow> code
        | ENGINE_KEY_EEXISTS \<Rightarrow> code
        | ENGINE_ENOMEM \<Rightarrow> code
        | ENGINE_NOT_STORED \<Rightarrow> code
        | ENGINE_EINVAL \<Rightarrow> code
        | ENGINE_ENOTSUP \<Rightarrow> code
        | ENGINE_EWOULDBLOCK \<Rightarrow> code
        | ENGINE_E2BIG \<Rightarrow> code
        | ENGINE_DISCONNECT \<Rightarrow> code
        | ENGINE_NOT_MY_VBUCKET \<Rightarrow> code
        | ENGINE_TMPFAIL \<Rightarrow> code
        | ENGINE_ERANGE \<Rightarrow> code
        | ENGINE_ROLLBACK \<Rightarrow> code
        | ENGINE_EBUSY \<Rightarrow> code
        | ENGINE_DELTA_BADVAL \<Rightarrow> code
        | ENGINE_PREDICATE_FAILED \<Rightarrow> code
        | ENGINE_FAILED \<Rightarrow> code
        | ENGINE_LOCKED \<Rightarrow> ENGINE_KEY_EEXISTS
        | ENGINE_LOCKED_TMPFAIL \<Rightarrow> ENGINE_TMPFAIL
        | ENGINE_UNKNOWN_COLLECTION \<Rightarrow> (if collections then code else ENGINE_EINVAL)
        | ENGINE_COLLECTIONS_MANIFEST_IS_AHEAD \<Rightarrow>
            (if collections then code else ENGINE_EINVAL)
        | ENGINE_EACCESS \<Rightarrow> ENGINE_DISCONNECT
        | ENGINE_NO_BUCKET \<Rightarrow> ENGINE_DISCONNECT
        | ENGINE_AUTH_STALE \<Rightarrow> ENGINE_DISCONNECT
        | ENGINE_DURABILITY_INVALID_LEVEL \<Rightarrow> ENGINE_DISCONNECT
        | ENGINE_DURABILITY_IMPOSSIBLE \<Rightarrow> ENGINE_DISCONNECT
        | ENGINE_SYNC_WRITE_IN_PROGRESS \<Rightarrow> ENGINE_TMPFAIL
        | ENGINE_SYNC_WRITE_RECOMMIT_IN_PROGRESS \<Rightarrow> ENGINE_TMPFAIL
        | ENGINE_SYNC_WRITE_AMBIGUOUS \<Rightarrow> ENGINE_DISCONNECT
        | ENGINE_DCP_STREAMID_INVALID \<Rightarrow> ENGINE_DISCONNECT))"

text \<open>
  The codes under the source's comment \<open>// Check our whitelist\<close>: the first case
  group of the switch, in the source's order.
\<close>

definition whitelist :: "ENGINE_ERROR_CODE list" where
  "whitelist =
     [ENGINE_SUCCESS, ENGINE_KEY_ENOENT, ENGINE_KEY_EEXISTS, ENGINE_ENOMEM,
      ENGINE_NOT_STORED, ENGINE_EINVAL, ENGINE_ENOTSUP, ENGINE_EWOULDBLOCK,
      ENGINE_E2BIG, ENGINE_DISCONNECT, ENGINE_NOT_MY_VBUCKET, ENGINE_TMPFAIL,
      ENGINE_ERANGE, ENGINE_ROLLBACK, ENGINE_EBUSY, ENGINE_DELTA_BADVAL,
      ENGINE_PREDICATE_FAILED, ENGINE_FAILED]"

section \<open>Cookie reference count\<close>

datatype cpp_exception = logic_error string | rbac_exception | narrowing_error | bad_alloc

text \<open>
  The fields of \<open>Cookie\<close> (daemon/cookie.h) that the modelled operations read or
  write: \<open>uint8_t refcount\<close>, \<open>bool ewouldblock\<close>, the error context and the
  event id.
\<close>

record Cookie =
  refcount :: "8 word"
  ewouldblock :: bool
  error_context :: string
  event_id :: string

definition getRefcount :: "Cookie \<Rightarrow> 8 word" where
  "getRefcount c = refcount c"

definition incrementRefcount :: "Cookie \<Rightarrow> cpp_exception + Cookie" where
  "incrementRefcount c =
     (if refcount c = 255
      then Inl (logic_error ''Cookie::incrementRefcount(): refcount will wrap'')
      else Inr (c\<lparr>refcount := refcount c + 1\<rparr>))"

definition decrementRefcount :: "Cookie \<Rightarrow> cpp_exception + Cookie" where
  "decrementRefcount c =
     (if refcount c = 0
      then Inl (logic_error ''Cookie::decrementRefcount(): refcount will wrap'')
      else Inr (c\<lparr>refcount := refcount c - 1\<rparr>))"

definition isEwouldblock :: "Cookie \<Rightarrow> bool" where
  "isEwouldblock c = ewouldblock c"

definition cookie0 :: Cookie where
  "cookie0 = \<lparr>refcount = 0, ewouldblock = False, error_context = [], event_id = []\<rparr>"

section \<open>The connection state machine\<close>

text \<open>\<open>StateMachine::State\<close>, in the order of \<open>getStateName\<close>.\<close>

datatype State =
    ssl_init
  | new_cmd
  | waiting
  | read_packet_header
  | parse_cmd
  | read_packet_body
  | closing
  | pending_close
  | immediate_close
  | destroyed
  | validate
  | execute
  | send_data
  | drain_send_buffer
  | ship_log

text \<open>
  A state machine holds its current state and a reference to its connection; of the
  connection \<open>setCurrentState\<close> reads only \<open>isDCP()\<close>.
\<close>

record StateMachine =
  currentState :: State
  isDCP :: bool

definition setCurrentState :: "State \<Rightarrow> StateMachine \<Rightarrow> StateMachine" where
  "setCurrentState task sm =
     (if task = currentState sm then sm
      else
        let task' = (if isDCP sm then (if task = waiting then ship_log else task) else task)
        in sm\<lparr>currentState := task'\<rparr>)"

text \<open>\<open>StateMachine::isIdleState\<close>.\<close>

fun isIdleState :: "State \<Rightarrow> bool" where
  "isIdleState read_packet_header = True"
| "isIdleState read_packet_body = True"
| "isIdleState waiting = True"
| "isIdleState new_cmd = True"
| "isIdleState ship_log = True"
| "isIdleState send_data = True"
| "isIdleState pending_close = True"
| "isIdleState drain_send_buffer = True"
| "isIdleState ssl_init = True"
| "isIdleState parse_cmd = False"
| "isIdleState closing = False"
| "isIdleState immediate_close = False"
| "isIdleState destroyed = False"
| "isIdleState validate = False"
| "isIdleState execute = False"

text \<open>
  A sequence of \<open>setCurrentState\<close> calls on one state machine, the only way the
  current state changes.
\<close>

fun setStates :: "State list \<Rightarrow> StateMachine \<Rightarrow> StateMachine" where
  "setStates [] sm = sm"
| "setStates (task # tasks) sm = setStates tasks (setCurrentState task sm)"

section \<open>Connection, send-queue watchdog and idle signalling\<close>

text \<open>
  \<open>cb::mcbp::Status\<close>: the response status codes named in the sources.
\<close>

datatype Status =
    Success
  | KeyEnoent
  | KeyEexists
  | E2big
  | Einval
  | NotStored
  | DeltaBadval
  | NotMyVbucket
  | NoBucket
  | Locked
  | AuthStale
  | AuthError
  | Erange
  | Rollback
  | Eaccess
  | NotInitialized
  | UnknownFrameInfo
  | UnknownCommand
  | Enomem
  | NotSupported
  | Einternal
  | Ebusy
  | Etmpfail
  | DurabilityInvalidLevel
  | SubdocPathEnoent
  | SubdocPathMismatch
  | SubdocPathEinval
  | SubdocPathE2big
  | SubdocDocE2deep
  | SubdocValueCantinsert
  | SubdocDocNotJson
  | SubdocNumErange
  | SubdocDeltaEinval
  | SubdocPathEexists
  | SubdocValueEtoodeep
  | SubdocMultiPathFailure
  | SubdocSuccessDeleted
  | SubdocMultiPathFailureDeleted

text \<open>
  Modelled from the spec: \<open>Bucket::State\<close> is declared in daemon/buckets.h, which is
  not among the sources; the spec gives its values as Creating, Ready, Destroying. The
  watchdog only compares against \<open>Ready\<close>.
\<close>

datatype BucketState = Creating | Ready | Destroying

text \<open>
  \<open>Connection::sendQueueInfo\<close>: the send-buffer size last seen, the time it was last
  seen to change (steady clock, in nanoseconds) and the forced-termination flag.
\<close>

record SendQueueInfo =
  last_sq :: int
  size_sq :: nat
  term_sq :: bool

text \<open>
  The part of \<open>Connection\<close> (daemon/connection.cc) used below. \<open>sendQueueSize\<close> is
  what \<open>getSendQueueSize()\<close> reads, the length of the output buffer. \<open>responses\<close>
  collects the statuses handed to \<open>Cookie::sendResponse\<close>, oldest first.
\<close>

record Connection =
  conn_id :: nat
  conn_refcount :: "8 word"
  stateMachine :: StateMachine
  writeAndGo :: State
  cookies :: "Cookie list"
  sendQueueInfo :: SendQueueInfo
  sendQueueSize :: nat
  bucketState :: BucketState
  responses :: "Status list"

definition getSendQueueSize :: "Connection \<Rightarrow> nat" where
  "getSendQueueSize c = sendQueueSize c"

definition getState :: "Connection \<Rightarrow> State" where
  "getState c = currentState (stateMachine c)"

text \<open>\<open>Connection::setState\<close> forwards to the state machine.\<close>

definition setState :: "State \<Rightarrow> Connection \<Rightarrow> Connection" where
  "setState next_state c = c\<lparr>stateMachine := setCurrentState next_state (stateMachine c)\<rparr>"

definition setWriteAndGo :: "State \<Rightarrow> Connection \<Rightarrow> Connection" where
  "setWriteAndGo next_state c = c\<lparr>writeAndGo := next_state\<rparr>"

text \<open>\<open>std::chrono::seconds(n)\<close> in the steady clock's nanoseconds.\<close>

definition seconds :: "int \<Rightarrow> int" where
  "seconds n = n * 1000000000"

text \<open>
  The stuck-client check at the head of \<open>Connection::runStateMachinery\<close>, before the
  loop over \<open>stateMachine.execute()\<close>. \<open>now\<close> is
  \<open>std::chrono::steady_clock::now()\<close>.
\<close>

definition runStateMachinery_check :: "int \<Rightarrow> Connection \<Rightarrow> Connection" where
  "runStateMachinery_check now c =
     (let currentSendBufferSize = getSendQueueSize c in
      if currentSendBufferSize = 0
      then c\<lparr>sendQueueInfo := (sendQueueInfo c)\<lparr>size_sq := currentSendBufferSize\<rparr>\<rparr>
      else if size_sq (sendQueueInfo c) \<noteq> currentSendBufferSize
      then c\<lparr>sendQueueInfo :=
               (sendQueueInfo c)\<lparr>size_sq := currentSendBufferSize, last_sq := now\<rparr>\<rparr>
      else
        let limit = (if bucketState c = Ready then seconds 29 else seconds 1) in
        if now - last_sq (sendQueueInfo c) > limit
        then setState closing (c\<lparr>sendQueueInfo := (sendQueueInfo c)\<lparr>term_sq := True\<rparr>\<rparr>)
        else c)"

text \<open>\<open>Connection::havePendingData\<close>.\<close>

definition havePendingData :: "Connection \<Rightarrow> bool" where
  "havePendingData c =
     (if term_sq (sendQueueInfo c) then False else getSendQueueSize c \<noteq> 0)"

text \<open>
  \<open>Connection::close\<close>. \<open>Cookie::reset\<close> is not among the sources and
  is a parameter; the cookie list holds the cookies that exist (the null check of
  the loop). Disabling read events, the socket shutdown and the disconnect callbacks
  leave the modelled fields alone. \<open>rc\<close> is a \<open>uint32_t\<close> sum of 8-bit counts.
\<close>

definition close :: "(Cookie \<Rightarrow> Cookie) \<Rightarrow> Connection \<Rightarrow> bool \<times> Connection" where
  "close reset c =
     (let rc = (unat (conn_refcount c) + sum_list (map (\<lambda>ck. unat (getRefcount ck)) (cookies c)))
                 mod 2 ^ 32;
          ewb = list_ex isEwouldblock (cookies c);
          c1 = c\<lparr>cookies := map (\<lambda>ck. if isEwouldblock ck then ck else reset ck) (cookies c)\<rparr>;
          ewb' = (if isDCP (stateMachine c1) then False else ewb)
      in if rc > 1 \<or> ewb' \<or> havePendingData c1
         then (False, setState pending_close c1)
         else (True, setState immediate_close c1))"

text \<open>
  \<open>FrontEndThread\<close>: the idle-notification list (connections by id) and the number of
  times \<open>notify_thread\<close> has written to the notification pipe.
\<close>

record FrontEndThread =
  notification :: "nat list"
  notified :: nat

text \<open>
  \<open>Connection::signalIfIdle\<close>. \<open>NotificationList::push\<close> is not among the
  sources and is a parameter.
\<close>

definition signalIfIdle ::
  "(nat \<Rightarrow> nat list \<Rightarrow> nat list) \<Rightarrow> Connection \<Rightarrow> FrontEndThread \<Rightarrow> bool \<times> FrontEndThread"
where
  "signalIfIdle push c thread =
     (if list_ex isEwouldblock (cookies c) then (False, thread)
      else if isIdleState (currentState (stateMachine c))
      then (True, thread\<lparr>notification := push (conn_id c) (notification thread),
                         notified := Suc (notified thread)\<rparr>)
      else (False, thread))"

definition conn0 :: Connection where
  "conn0 = \<lparr>conn_id = 1,
            conn_refcount = 0,
            stateMachine = \<lparr>currentState = new_cmd, isDCP = False\<rparr>,
            writeAndGo = new_cmd,
            cookies = [cookie0],
            sendQueueInfo = \<lparr>last_sq = 0, size_sq = 0, term_sq = False\<rparr>,
            sendQueueSize = 0,
            bucketState = Ready,
            responses = []\<rparr>"

section \<open>The validate state\<close>

text \<open>
  What \<open>StateMachine::conn_validate\<close> learns from its collaborators:
  \<open>is_bucket_dying\<close>, \<open>header.isRequest()\<close>, \<open>is_client_magic\<close> of the request's
  magic, \<open>is_valid_opcode\<close>, and the status returned by
  \<open>McbpValidator::validate(opcode, cookie)\<close>, the per-opcode packet validator.
\<close>

record validate_input =
  bucket_dying :: bool
  isRequest :: bool
  client_magic :: bool
  valid_opcode :: bool
  validator_result :: Status

text \<open>
  Modelled from the spec: \<open>Cookie::sendResponse(status)\<close> is defined in
  daemon/cookie.cc, which is not among the sources. It queues the response, moves the
  connection to \<open>send_data\<close> and sets write-and-go to the state after the send,
  \<open>new_cmd\<close>: so does \<open>mcbp_write_packet\<close> (daemon/mcbp.cc), and so says the
  comment in \<open>conn_validate\<close> (write-and-go is set to continue with the next
  command).
\<close>

definition sendResponse :: "Status \<Rightarrow> Connection \<Rightarrow> Connection" where
  "sendResponse status c =
     setWriteAndGo new_cmd (setState send_data (c\<lparr>responses := responses c @ [status]\<rparr>))"

text \<open>
  \<open>StateMachine::conn_validate\<close>. Returns the handler's result and the connection.
\<close>

definition conn_validate :: "validate_input \<Rightarrow> Connection \<Rightarrow> bool \<times> Connection" where
  "conn_validate inp c =
     (if bucket_dying inp then (True, c)
      else if isRequest inp then
        (if client_magic inp then
           (if \<not> valid_opcode inp then (True, sendResponse UnknownCommand c)
            else
              let result = validator_result inp in
              if result \<noteq> Success
              then (True, setWriteAndGo closing (sendResponse result c))
              else (True, setState execute c))
         else (True, setState closing c))
      else (True, setState execute c))"

section \<open>The append/prepend context\<close>

text \<open>
  \<open>AppendPrependCommandContext::State\<close> (daemon/protocol/mcbp/appendprepend_context.h).
\<close>

datatype AppendPrependState =
    ValidateInput
  | InflateInputData
  | GetItem
  | AllocateNewItem
  | StoreItem
  | Reset
  | Done

text \<open>
  Modelled from the spec: \<open>AppendPrependCommandContext::step\<close> and the functions of its
  states are defined in appendprepend_context.cc, which is not among the sources (the
  header that declares them and the executor that drives the context are). The header
  says that a concurrent update shows as EEXISTS from the CAS store and that the
  operation is then retried, through the \<open>Reset\<close> state; the spec says that a context
  retries a retryable CAS mismatch up to 100 times and that exceeding that surfaces
  TempFail. \<open>store\<close> is what the engine answers to the store of an attempt, \<open>cas\<close>
  the CAS of the request. The function runs from \<open>state\<close> to \<open>Done\<close> and returns
  the engine code, the number of attempts and the number of passes through \<open>Reset\<close>.
\<close>

function appendprepend_step ::
  "(nat \<Rightarrow> ENGINE_ERROR_CODE) \<Rightarrow> 64 word \<Rightarrow> AppendPrependState \<Rightarrow> nat \<Rightarrow> nat
     \<Rightarrow> ENGINE_ERROR_CODE \<times> nat \<times> nat"
where
  "appendprepend_step store cas state attempts resets =
     (case state of
        ValidateInput \<Rightarrow> appendprepend_step store cas GetItem attempts resets
      | InflateInputData \<Rightarrow> appendprepend_step store cas GetItem attempts resets
      | GetItem \<Rightarrow> appendprepend_step store cas AllocateNewItem attempts resets
      | AllocateNewItem \<Rightarrow> appendprepend_step store cas StoreItem attempts resets
      | StoreItem \<Rightarrow>
          (let ret = store (Suc attempts)
           in if ret = ENGINE_SUCCESS
              then appendprepend_step store cas Done (Suc attempts) resets
              else if ret = ENGINE_KEY_EEXISTS \<and> cas = 0
              then appendprepend_step store cas Reset (Suc attempts) resets
              else (ret, Suc attempts, resets))
      | Reset \<Rightarrow>
          (if attempts < 100
           then appendprepend_step store cas GetItem attempts (Suc resets)
           else (ENGINE_TMPFAIL, attempts, resets))
      | Done \<Rightarrow> (ENGINE_SUCCESS, attempts, resets))"
  by pat_completeness auto
termination
proof (relation "measure (\<lambda>(store, cas, state, attempts, resets).
          if state = Reset \<and> 100 \<le> attempts then 0
          else 7 * (100 - attempts) +
               (case state of ValidateInput \<Rightarrow> 6 | InflateInputData \<Rightarrow> 6 | GetItem \<Rightarrow> 5
                  | AllocateNewItem \<Rightarrow> 4 | StoreItem \<Rightarrow> 3 | Reset \<Rightarrow> 6 | Done \<Rightarrow> 1))",
       goal_cases)
  case 1 then show ?case by (simp; arith)
next
  case 2 then show ?case by (simp; arith)
next
  case 3 then show ?case by (simp; arith)
next
  case 4 then show ?case by (simp; arith)
next
  case 5 then show ?case by (simp; arith)
next
  case 6 then show ?case by (simp; arith)
next
  case 7 then show ?case by (simp; arith)
next
  case 8 then show ?case by (simp; arith)
qed

declare appendprepend_step.simps [simp del]

section \<open>Privilege checks\<close>

text \<open>\<open>cb::rbac::PrivilegeAccess\<close>.\<close>

datatype PrivilegeAccess = Ok | Fail | Stale

text \<open>
  What one call of \<open>cb::rbac::createContext\<close> can do: return a context, throw
  \<open>NoSuchBucketException\<close>, or throw another \<open>cb::rbac::Exception\<close>.
\<close>

datatype 'ctx createContext_result = Created 'ctx | NoSuchBucketException | RbacException

text \<open>
  The collaborators of \<open>Connection::checkPrivilege\<close>. The RBAC library is not among the
  sources, so \<open>PrivilegeContext::check\<close> and \<open>createContext\<close> are
  parameters; both may answer differently as the RBAC database changes, so both are
  given the number of rebuilds made so far. \<open>privilegeDebug\<close> is
  \<open>settings.isPrivilegeDebug()\<close>, \<open>bucketName\<close> is
  \<open>all_buckets[bucketIndex].name\<close>, \<open>command\<close> the name of the request's opcode.
\<close>

record ('ctx, 'p) rbac_env =
  check :: "nat \<Rightarrow> 'ctx \<Rightarrow> 'p \<Rightarrow> PrivilegeAccess"
  createContext :: "nat \<Rightarrow> string \<Rightarrow> 'ctx createContext_result"
  privilegeDebug :: bool
  bucketName :: string
  command :: string
  privilege_to_string :: "'p \<Rightarrow> string"

definition max_retries :: nat where
  "max_retries = 100"

text \<open>
  How the \<open>while\<close> loop of \<open>checkPrivilege\<close> is left: by the \<open>return\<close> in the
  handler of \<open>cb::rbac::Exception\<close>, or by its condition failing. Both carry the
  privilege context and the local counter \<open>retries\<close>; the second carries the last
  result of \<open>check\<close>.
\<close>

datatype 'ctx loop_exit =
    ReturnedFail 'ctx nat
  | Exited PrivilegeAccess 'ctx nat

text \<open>
  The loop. An exception thrown by the second \<open>createContext\<close>, inside the handler of
  \<open>NoSuchBucketException\<close>, is not caught in \<open>checkPrivilege\<close>.
\<close>

function checkPrivilege_loop ::
  "('ctx, 'p) rbac_env \<Rightarrow> 'p \<Rightarrow> 'ctx \<Rightarrow> nat \<Rightarrow> cpp_exception + 'ctx loop_exit"
where
  "checkPrivilege_loop env privilege ctx retries =
     (if check env retries ctx privilege = Stale \<and> retries < max_retries
      then
        (case createContext env (Suc retries) (bucketName env) of
           Created ctx' \<Rightarrow> checkPrivilege_loop env privilege ctx' (Suc retries)
         | NoSuchBucketException \<Rightarrow>
             (case createContext env (Suc retries) [] of
                Created ctx' \<Rightarrow> checkPrivilege_loop env privilege ctx' (Suc retries)
              | NoSuchBucketException \<Rightarrow> Inl rbac_exception
              | RbacException \<Rightarrow> Inl rbac_exception)
         | RbacException \<Rightarrow> Inr (ReturnedFail ctx (Suc retries)))
      else Inr (Exited (check env retries ctx privilege) ctx retries))"
  by pat_completeness auto
termination
  by (relation "measure (\<lambda>(env, privilege, ctx, retries). max_retries - retries)")
     (auto simp: max_retries_def)

text \<open>
  What \<open>checkPrivilege\<close> leaves behind: the access it returns, the connection's
  privilege context, the number of rebuilds it made (\<open>retries\<close>, which the source
  logs) and the error context it set on the cookie, if any.
\<close>

record 'ctx checkPrivilege_result =
  access :: PrivilegeAccess
  privilegeContext :: 'ctx
  rebuilds :: nat
  errorContext :: "string option"

text \<open>\<open>Connection::checkPrivilege\<close>.\<close>

definition checkPrivilege ::
  "('ctx, 'p) rbac_env \<Rightarrow> 'p \<Rightarrow> 'ctx \<Rightarrow> cpp_exception + 'ctx checkPrivilege_result"
where
  "checkPrivilege env privilege ctx =
     (case checkPrivilege_loop env privilege ctx 0 of
        Inl e \<Rightarrow> Inl e
      | Inr (ReturnedFail ctx' retries) \<Rightarrow>
          Inr \<lparr>access = Fail, privilegeContext = ctx', rebuilds = retries,
               errorContext =
                 Some (''An exception occurred. command: ['' @ command env @ '']'')\<rparr>
      | Inr (Exited ret ctx' retries) \<Rightarrow>
          (if ret = Fail then
             (if privilegeDebug env
              then Inr \<lparr>access = Ok, privilegeContext = ctx', rebuilds = retries,
                        errorContext = None\<rparr>
              else Inr \<lparr>access = ret, privilegeContext = ctx', rebuilds = retries,
                        errorContext =
                          Some (''Authorization failure: can't execute '' @ command env @
                                '' operation without the '' @
                                privilege_to_string env privilege @ '' privilege'')\<rparr>)
           else Inr \<lparr>access = ret, privilegeContext = ctx', rebuilds = retries,
                     errorContext = None\<rparr>))"

text \<open>A sample environment: the context is the number of the rebuild that made it.\<close>

definition rbac_env0 :: "(nat, unit) rbac_env" where
  "rbac_env0 = \<lparr>check = (\<lambda>n c p. if c < 2 then Stale else Ok),
                createContext = (\<lambda>n b. Created n),
                privilegeDebug = False, bucketName = ''default'', command = ''GET'',
                privilege_to_string = (\<lambda>p. ''Read'')\<rparr>"

section \<open>The sub-document executor\<close>

text \<open>
  What \<open>subdoc_executor\<close> (daemon/subdocument.cc) does to the cookie, in order:
  installing a new command context, resetting it (\<open>cookie.setCommandContext()\<close>),
  the three steps \<open>subdoc_fetch\<close>, \<open>subdoc_operate\<close> and \<open>subdoc_update\<close>
  with whatever they did themselves (responses, blocking; of type \<open>'e\<close>), the two
  overloads of \<open>cookie.sendResponse\<close>, and \<open>subdoc_response\<close>.
\<close>

datatype 'e subdoc_event =
    ContextCreated
  | ContextReset
  | Fetched "'e list"
  | Operated "'e list"
  | Updated ENGINE_ERROR_CODE "'e list"
  | SendResponse Status
  | SendResponseErrc ENGINE_ERROR_CODE
  | SubdocResponse

text \<open>
  The engine and the document decide what the steps return; they are parameters, given
  the number of the attempt. \<open>create_context\<close> says whether
  \<open>subdoc_create_context\<close> returned a context (it returns null when out of memory);
  \<open>fetch\<close> and \<open>operate\<close> return whether execution should continue;
  \<open>update\<close> returns the engine code of \<open>subdoc_update\<close>.
\<close>

record 'e subdoc_env =
  create_context :: "nat \<Rightarrow> bool"
  fetch :: "nat \<Rightarrow> ENGINE_ERROR_CODE \<Rightarrow> bool \<times> 'e list"
  operate :: "nat \<Rightarrow> bool \<times> 'e list"
  update :: "nat \<Rightarrow> ENGINE_ERROR_CODE \<Rightarrow> ENGINE_ERROR_CODE \<times> 'e list"

definition MAXIMUM_ATTEMPTS :: nat where
  "MAXIMUM_ATTEMPTS = 100"

text \<open>
  One pass through the body of the \<open>do \<dots> while\<close> loop: it either returns from
  \<open>subdoc_executor\<close> or reaches \<open>continue\<close>, which only the auto-retry branch
  does.
\<close>

datatype 'e attempt_exit =
    Return "'e subdoc_event list"
  | Continue "'e subdoc_event list"

definition subdoc_attempt ::
  "'e subdoc_env \<Rightarrow> bool \<Rightarrow> bool \<Rightarrow> ENGINE_ERROR_CODE \<Rightarrow> nat \<Rightarrow> 'e attempt_exit"
where
  "subdoc_attempt env auto_retry has_context ret attempts =
     (if \<not> has_context \<and> \<not> create_context env attempts
      then Return [SendResponse Enomem]
      else
        let ev0 = (if has_context then [] else [ContextCreated]);
            (fetched, fe) = fetch env attempts ret
        in if \<not> fetched then Return (ev0 @ [Fetched fe])
           else
             let (operated, oe) = operate env attempts
             in if \<not> operated then Return (ev0 @ [Fetched fe, Operated oe])
                else
                  let (ret', ue) = update env attempts ret;
                      ev = ev0 @ [Fetched fe, Operated oe, Updated ret' ue]
                  in if ret' = ENGINE_KEY_EEXISTS then
                       (if auto_retry then Continue (ev @ [ContextReset])
                        else Return (ev @ [SendResponseErrc ret']))
                     else if ret' \<noteq> ENGINE_SUCCESS then Return ev
                     else Return (ev @ [SubdocResponse]))"

record 'e subdoc_result =
  trace :: "'e subdoc_event list"
  attempts_made :: nat

text \<open>
  The loop, with the \<open>sendResponse(Etmpfail)\<close> that follows it. After
  \<open>continue\<close> the context is gone and \<open>ret\<close> is \<open>ENGINE_SUCCESS\<close>.
\<close>

function subdoc_loop ::
  "'e subdoc_env \<Rightarrow> bool \<Rightarrow> bool \<Rightarrow> ENGINE_ERROR_CODE \<Rightarrow> 'e subdoc_event list \<Rightarrow> nat
     \<Rightarrow> 'e subdoc_result"
where
  "subdoc_loop env auto_retry has_context ret tr attempts =
     (case subdoc_attempt env auto_retry has_context ret (Suc attempts) of
        Return ev \<Rightarrow> \<lparr>trace = tr @ ev, attempts_made = Suc attempts\<rparr>
      | Continue ev \<Rightarrow>
          if auto_retry \<and> Suc attempts < MAXIMUM_ATTEMPTS
          then subdoc_loop env auto_retry False ENGINE_SUCCESS (tr @ ev) (Suc attempts)
          else \<lparr>trace = tr @ ev @ [SendResponse Etmpfail], attempts_made = Suc attempts\<rparr>)"
  by pat_completeness auto
termination
  by (relation "measure (\<lambda>(env, auto_retry, has_context, ret, tr, attempts).
                           MAXIMUM_ATTEMPTS - attempts)")
     (auto simp: MAXIMUM_ATTEMPTS_def)

text \<open>
  \<open>subdoc_executor\<close>: \<open>cas\<close> is the CAS of the request, \<open>has_context\<close> whether the
  cookie already holds a sub-document context (a re-execution after EWOULDBLOCK),
  \<open>aiostat\<close> what \<open>cookie.swapAiostat\<close> returns.
\<close>

definition subdoc_executor ::
  "'e subdoc_env \<Rightarrow> 64 word \<Rightarrow> bool \<Rightarrow> ENGINE_ERROR_CODE \<Rightarrow> 'e subdoc_result"
where
  "subdoc_executor env cas has_context aiostat =
     (let auto_retry = (cas = 0)
      in subdoc_loop env auto_retry has_context aiostat [] 0)"

text \<open>
  Attempt \<open>n\<close> runs as far as the store and the store reports a CAS mismatch:
  \<open>subdoc_update\<close> returns \<open>ENGINE_KEY_EEXISTS\<close>.
\<close>

definition cas_mismatch :: "'e subdoc_env \<Rightarrow> bool \<Rightarrow> ENGINE_ERROR_CODE \<Rightarrow> nat \<Rightarrow> bool" where
  "cas_mismatch env has_context ret n =
     ((has_context \<or> create_context env n) \<and> fst (fetch env n ret) \<and> fst (operate env n) \<and>
      fst (update env n ret) = ENGINE_KEY_EEXISTS)"


text \<open>A sample engine: every store meets a concurrent update.\<close>

definition contended :: "unit subdoc_env" where
  "contended = \<lparr>create_context = (\<lambda>n. True),
                fetch = (\<lambda>n ret. (True, [])),
                operate = (\<lambda>n. (True, [])),
                update = (\<lambda>n ret. (ENGINE_KEY_EEXISTS, []))\<rparr>"

section \<open>Assembling responses\<close>















section \<open>The DCP mutation producer\<close>

text \<open>\<open>cb::mcbp::Magic\<close> and the opcodes the DCP producers of the connection set.\<close>

datatype Magic =
    ClientRequest
  | ClientResponse
  | AltClientRequest
  | AltClientResponse
  | ServerRequest
  | ServerResponse

datatype ClientOpcode = DcpSnapshotMarker | DcpMutation | DcpDeletion | DcpExpiration

text \<open>
  \<open>cb::mcbp::Request\<close>, the 24-byte request header, by field and in host order. The
  setters of the key length and of the framing-extras length are not among the
  sources: the two lengths are kept as two fields (on the wire, with an alt
  magic, they share the 16 bits of the key length, one byte each; what the setter does
  with a longer key is not modelled).
\<close>

record Request =
  req_magic :: Magic
  req_opcode :: ClientOpcode
  req_framing_extraslen :: "8 word"
  req_keylen :: "16 word"
  req_extlen :: "8 word"
  req_datatype :: "8 word"
  req_vbucket :: "16 word"
  req_bodylen :: "32 word"
  req_opaque :: "32 word"
  req_cas :: "64 word"

text \<open>
  Modelled from the spec: \<open>cb::mcbp::request::DcpMutationPayload\<close> is declared in a
  header that is not among the sources; the spec gives its shape as by-seqno u64,
  rev-seqno u64, flags u32, expiration u32, lock-time u32, meta-len u16, nru u8, that is
  31 bytes. The fields are in the order of the constructor's arguments in
  \<open>Connection::mutation\<close>.
\<close>

record DcpMutationPayload =
  by_seqno :: "64 word"
  rev_seqno :: "64 word"
  flags :: "32 word"
  expiration :: "32 word"
  lock_time :: "32 word"
  nmeta :: "16 word"
  nru :: "8 word"

definition sizeof_DcpMutationPayload :: nat where
  "sizeof_DcpMutationPayload = 31"

definition sizeof_Request :: nat where
  "sizeof_Request = 24"

text \<open>
  Modelled from the spec: \<open>cb::mcbp::DcpStreamIdFrameInfo\<close> is declared in a header
  that is not among the sources. By the spec a frame-info starts with the byte
  (id << 4 | length); the id of DcpStreamId is 2 (\<open>FrameInfoId\<close> in the request
  header) and its payload is the 2-byte stream id in network byte order: three bytes.
\<close>

definition DcpStreamIdFrameInfo :: "16 word \<Rightarrow> bytes" where
  "DcpStreamIdFrameInfo sid = [0x22, ucast (drop_bit 8 sid), ucast sid]"

definition sizeof_DcpStreamIdFrameInfo :: nat where
  "sizeof_DcpStreamIdFrameInfo = 3"

text \<open>
  A region handed to the output stream: a struct copied as it lies in memory, or bytes.
\<close>

datatype chunk =
    HeaderBytes Request
  | ExtrasBytes DcpMutationPayload
  | Bytes bytes

fun chunk_size :: "chunk \<Rightarrow> nat" where
  "chunk_size (HeaderBytes req) = sizeof_Request"
| "chunk_size (ExtrasBytes extras) = sizeof_DcpMutationPayload"
| "chunk_size (Bytes bs) = length bs"

text \<open>
  The output buffer of the connection: segments that were copied in
  (\<open>bufferevent_write\<close>) and segments that refer to memory owned elsewhere
  (\<open>evbuffer_add_reference\<close>), here always the value of an item, with the item that
  the cleanup callback releases. \<open>calls\<close> counts the calls made to the two libevent
  functions; whether a call succeeds is a parameter \<open>ok\<close> of the call's number.
\<close>

datatype segment =
    Copied chunk
  | Referenced bytes nat

record ostream =
  segments :: "segment list"
  totalSend :: nat
  calls :: nat

fun seg_size :: "segment \<Rightarrow> nat" where
  "seg_size (Copied data) = chunk_size data"
| "seg_size (Referenced payload item) = length payload"

text \<open>
  \<open>bufferevent_write\<close> and \<open>evbuffer_add_reference\<close>: the segment is appended to
  the output buffer and the call returns 0 (\<open>True\<close>), or the call returns -1
  (\<open>False\<close>).
\<close>

definition libevent_add :: "(nat \<Rightarrow> bool) \<Rightarrow> segment \<Rightarrow> ostream \<Rightarrow> bool \<times> ostream" where
  "libevent_add ok seg st =
     (if ok (calls st)
      then (True, st\<lparr>segments := segments st @ [seg], calls := Suc (calls st)\<rparr>)
      else (False, st\<lparr>calls := Suc (calls st)\<rparr>))"

text \<open>
  \<open>Connection::copyToOutputStream\<close>: the exception it throws, if any, and the
  stream.
\<close>

definition copyToOutputStream ::
  "(nat \<Rightarrow> bool) \<Rightarrow> chunk \<Rightarrow> ostream \<Rightarrow> cpp_exception option \<times> ostream"
where
  "copyToOutputStream ok data st =
     (if chunk_size data = 0 then (None, st)
      else
        (case libevent_add ok (Copied data) st of
           (False, st') \<Rightarrow> (Some bad_alloc, st')
         | (True, st') \<Rightarrow> (None, st'\<lparr>totalSend := totalSend st' + chunk_size data\<rparr>)))"

text \<open>
  \<open>Connection::chainDataToOutputStream\<close> on an \<open>ItemSendBuffer\<close> that holds
  \<open>item\<close> and views \<open>payload\<close>.
\<close>

definition chainDataToOutputStream ::
  "(nat \<Rightarrow> bool) \<Rightarrow> bytes \<Rightarrow> nat \<Rightarrow> ostream \<Rightarrow> cpp_exception option \<times> ostream"
where
  "chainDataToOutputStream ok payload item st =
     (if payload = [] then (None, st)
      else
        (case libevent_add ok (Referenced payload item) st of
           (False, st') \<Rightarrow> (Some bad_alloc, st')
         | (True, st') \<Rightarrow> (None, st'\<lparr>totalSend := totalSend st' + length payload\<rparr>)))"

text \<open>Queueing a segment with the function of the two that fits it.\<close>

fun put :: "(nat \<Rightarrow> bool) \<Rightarrow> segment \<Rightarrow> ostream \<Rightarrow> cpp_exception option \<times> ostream" where
  "put ok (Copied data) = copyToOutputStream ok data"
| "put ok (Referenced payload item) = chainDataToOutputStream ok payload item"

text \<open>
  \<open>sendbuffer_cleanup_cb\<close>, which libevent calls when it is done with a referenced
  segment: it deletes the send buffer, whose destructor releases the item. The items
  released when a segment has been sent.
\<close>

fun sendbuffer_cleanup_cb :: "segment \<Rightarrow> nat list" where
  "sendbuffer_cleanup_cb (Copied data) = []"
| "sendbuffer_cleanup_cb (Referenced payload item) = [item]"

text \<open>The statements of a \<open>try\<close> block, run in order up to the first that throws.\<close>

fun run_steps ::
  "(ostream \<Rightarrow> cpp_exception option \<times> ostream) list \<Rightarrow> ostream \<Rightarrow> cpp_exception option \<times> ostream"
where
  "run_steps [] st = (None, st)"
| "run_steps (step # steps) st =
     (case step st of
        (Some e, st') \<Rightarrow> (Some e, st')
      | (None, st') \<Rightarrow> run_steps steps st')"

text \<open>\<open>item_info\<close>, the fields that \<open>Connection::mutation\<close> reads.\<close>

record item_info =
  info_key :: bytes
  info_value :: bytes
  info_flags :: "32 word"
  info_exptime :: nat
  info_cas :: "64 word"
  info_datatype :: "8 word"

text \<open>
  The collaborators of \<open>Connection::mutation\<close>: \<open>bucket_get_item_info\<close> (which may
  fail), \<open>isCollectionsSupported()\<close>, \<open>DocKey::makeDocKeyWithoutCollectionID\<close> and
  the success of the libevent calls.
\<close>

record mutation_env =
  bucket_get_item_info :: "nat \<Rightarrow> item_info option"
  isCollectionsSupported :: bool
  makeDocKeyWithoutCollectionID :: "bytes \<Rightarrow> bytes"
  libevent_ok :: "nat \<Rightarrow> bool"

text \<open>
  What \<open>Connection::mutation\<close> returns and leaves: the engine code, the output stream,
  and the items released by the time it returns (the item it was given, unless a send
  buffer in the output stream has taken it over).
\<close>

record mutation_result =
  returned :: ENGINE_ERROR_CODE
  stream :: ostream
  released :: "nat list"

text \<open>
  \<open>Connection::mutation\<close>. \<open>gsl::narrow\<close> throws when the value does not fit;
  that exception is not caught here. \<open>meta\<close> points to at least \<open>nmeta\<close> bytes.
\<close>

definition mutation ::
  "mutation_env \<Rightarrow> 32 word \<Rightarrow> nat \<Rightarrow> 16 word \<Rightarrow> 64 word \<Rightarrow> 64 word \<Rightarrow> 32 word \<Rightarrow> bytes \<Rightarrow>
   16 word \<Rightarrow> 8 word \<Rightarrow> 16 word \<Rightarrow> ostream \<Rightarrow> cpp_exception + mutation_result"
where
  "mutation env opq it vb by_seq rev_seq lock meta n_meta nru_v sid st =
     (case bucket_get_item_info env it of
        None \<Rightarrow> Inr \<lparr>returned = ENGINE_FAILED, stream = st, released = [it]\<rparr>
      | Some info \<Rightarrow>
          let buffer = info_value info;
              key = (if \<not> isCollectionsSupported env
                     then makeDocKeyWithoutCollectionID env (info_key info)
                     else info_key info);
              bodylen = sizeof_DcpMutationPayload + length key + unat n_meta + length buffer +
                        (if sid \<noteq> 0 then sizeof_DcpStreamIdFrameInfo else 0)
          in if \<not> info_exptime info < 2 ^ 32 \<or> \<not> length key < 2 ^ 16 \<or> \<not> bodylen < 2 ^ 32
             then Inl narrowing_error
             else
               let extras = \<lparr>by_seqno = by_seq, rev_seqno = rev_seq, flags = info_flags info,
                             expiration = of_nat (info_exptime info), lock_time = lock,
                             nmeta = n_meta, nru = nru_v\<rparr>;
                   req = \<lparr>req_magic = (if sid \<noteq> 0 then AltClientRequest else ClientRequest),
                          req_opcode = DcpMutation,
                          req_framing_extraslen =
                            (if sid \<noteq> 0 then of_nat sizeof_DcpStreamIdFrameInfo else 0),
                          req_keylen = of_nat (length key),
                          req_extlen = of_nat sizeof_DcpMutationPayload,
                          req_datatype = info_datatype info,
                          req_vbucket = vb,
                          req_bodylen = of_nat bodylen,
                          req_opaque = opq,
                          req_cas = info_cas info\<rparr>;
                   ok = libevent_ok env;
                   (thrown, st') =
                     run_steps
                       [copyToOutputStream ok (HeaderBytes req),
                        (if sid \<noteq> 0
                         then copyToOutputStream ok (Bytes (DcpStreamIdFrameInfo sid))
                         else Pair None),
                        copyToOutputStream ok (ExtrasBytes extras),
                        copyToOutputStream ok (Bytes key),
                        (if buffer \<noteq> []
                         then chainDataToOutputStream ok buffer it
                         else Pair None),
                        copyToOutputStream ok (Bytes (take (unat n_meta) meta))] st;
                   chained = (Referenced buffer it \<in> set (drop (length (segments st)) (segments st')))
               in (case thrown of
                     Some e \<Rightarrow> Inr \<lparr>returned = ENGINE_DISCONNECT, stream = st',
                                    released = (if chained then [] else [it])\<rparr>
                   | None \<Rightarrow> Inr \<lparr>returned = ENGINE_SUCCESS, stream = st',
                                  released = (if chained then [] else [it])\<rparr>))"

text \<open>
  The frame of a mutation with a stream id, as the spec describes it: the header with
  the alt-client-request magic, the DcpStreamId frame-info with the two bytes of the
  stream id, the mutation extras, then the key, the value as a segment that refers to
  the item, and the meta (the last three when they are not empty).
\<close>

definition dcp_mutation_frame ::
  "item_info \<Rightarrow> bytes \<Rightarrow> 32 word \<Rightarrow> nat \<Rightarrow> 16 word \<Rightarrow> 64 word \<Rightarrow> 64 word \<Rightarrow> 32 word \<Rightarrow> bytes \<Rightarrow>
   16 word \<Rightarrow> 8 word \<Rightarrow> 16 word \<Rightarrow> segment list"
where
  "dcp_mutation_frame info key opq it vb by_seq rev_seq lock meta n_meta nru_v sid =
     [Copied (HeaderBytes
        \<lparr>req_magic = AltClientRequest,
         req_opcode = DcpMutation,
         req_framing_extraslen = 3,
         req_keylen = of_nat (length key),
         req_extlen = 31,
         req_datatype = info_datatype info,
         req_vbucket = vb,
         req_bodylen = of_nat (3 + 31 + length key + length (info_value info) + unat n_meta),
         req_opaque = opq,
         req_cas = info_cas info\<rparr>),
      Copied (Bytes [0x22, ucast (drop_bit 8 sid), ucast sid]),
      Copied (ExtrasBytes
        \<lparr>by_seqno = by_seq, rev_seqno = rev_seq, flags = info_flags info,
         expiration = of_nat (info_exptime info), lock_time = lock,
         nmeta = n_meta, nru = nru_v\<rparr>)] @
     filter (\<lambda>seg. seg_size seg \<noteq> 0)
       [Copied (Bytes key),
        Referenced (info_value info) it,
        Copied (Bytes (take (unat n_meta) meta))]"

text \<open>A sample item, and a producer on a connection that negotiated collections.\<close>

definition item0 :: item_info where
  "item0 = \<lparr>info_key = [0, 107], info_value = [118, 97, 108], info_flags = 0,
            info_exptime = 0, info_cas = 42, info_datatype = 0\<rparr>"

definition mutation_env0 :: mutation_env where
  "mutation_env0 = \<lparr>bucket_get_item_info = (\<lambda>it. Some item0),
                    isCollectionsSupported = True,
                    makeDocKeyWithoutCollectionID = tl,
                    libevent_ok = (\<lambda>n. True)\<rparr>"

definition ostream0 :: ostream where
  "ostream0 = \<lparr>segments = [], totalSend = 0, calls = 0\<rparr>"

section \<open>Refcount: wrap is fatal\<close>

lemma u8_unat_inc: "(x::8 word) \<noteq> 255 \<Longrightarrow> unat (x + 1) = unat x + 1"
proof -
  assume a: "x \<noteq> 255"
  have b: "unat x < 256" using unsigned_less[of x, where ?'a=nat] by simp
  have "unat x \<noteq> unat (255::8 word)"
    using a by (simp only: word_unat_eq_iff[symmetric] not_False_eq_True)
  then have c: "unat x \<noteq> 255" by simp
  show ?thesis using b c by (simp add: unat_word_ariths)
qed

lemma u8_unat_dec: "(x::8 word) \<noteq> 0 \<Longrightarrow> Suc (unat (x - 1)) = unat x"
  by (simp add: unat_minus_one unat_gt_0 Suc_leI)

text \<open>
  C9. Incrementing a cookie's reference count at 255 and decrementing it at 0 throw
  (the count does not wrap); in every other case the operation succeeds and changes the
  count by exactly one.
\<close>

theorem refcount_no_wrap:
  "(refcount c = 255 \<longrightarrow> (\<exists>e. incrementRefcount c = Inl e)) \<and>
   (refcount c = 0 \<longrightarrow> (\<exists>e. decrementRefcount c = Inl e)) \<and>
   (refcount c \<noteq> 255 \<longrightarrow>
      (\<exists>c'. incrementRefcount c = Inr c' \<and> unat (refcount c') = unat (refcount c) + 1)) \<and>
   (refcount c \<noteq> 0 \<longrightarrow>
      (\<exists>c'. decrementRefcount c = Inr c' \<and> unat (refcount c') + 1 = unat (refcount c)))"
  by (simp add: incrementRefcount_def decrementRefcount_def u8_unat_inc u8_unat_dec)

theorem refcount_no_wrap_witness:
  "(\<exists>e. incrementRefcount (cookie0\<lparr>refcount := 255\<rparr>) = Inl e) \<and>
   (\<exists>e. decrementRefcount cookie0 = Inl e) \<and>
   (\<exists>c'. incrementRefcount (cookie0\<lparr>refcount := 7\<rparr>) = Inr c' \<and> unat (refcount c') = 8) \<and>
   (\<exists>c'. decrementRefcount (cookie0\<lparr>refcount := 7\<rparr>) = Inr c' \<and> unat (refcount c') + 1 = 7)"
  using refcount_no_wrap [of "cookie0\<lparr>refcount := 255\<rparr>"]
        refcount_no_wrap [of cookie0]
        refcount_no_wrap [of "cookie0\<lparr>refcount := 7\<rparr>"]
  by (simp add: cookie0_def)

section \<open>Error remapping for clients without extended error codes\<close>

text \<open>
  C2. With xerror negotiated \<open>remapErrorCode\<close> returns every code unchanged. Without
  it, eaccess, auth-stale and no-bucket become \<open>ENGINE_DISCONNECT\<close>,
  sync-write-in-progress and sync-write-recommit-in-progress become
  \<open>ENGINE_TMPFAIL\<close>, unknown-collection and collections-manifest-is-ahead become
  \<open>ENGINE_EINVAL\<close> unless collections were negotiated, and every code of the
  whitelist is returned unchanged.
\<close>

theorem remapErrorCode_table:
  "remapErrorCode True coll code = code \<and>
   remapErrorCode False coll ENGINE_EACCESS = ENGINE_DISCONNECT \<and>
   remapErrorCode False coll ENGINE_AUTH_STALE = ENGINE_DISCONNECT \<and>
   remapErrorCode False coll ENGINE_NO_BUCKET = ENGINE_DISCONNECT \<and>
   remapErrorCode False coll ENGINE_SYNC_WRITE_IN_PROGRESS = ENGINE_TMPFAIL \<and>
   remapErrorCode False coll ENGINE_SYNC_WRITE_RECOMMIT_IN_PROGRESS = ENGINE_TMPFAIL \<and>
   remapErrorCode False coll ENGINE_UNKNOWN_COLLECTION =
     (if coll then ENGINE_UNKNOWN_COLLECTION else ENGINE_EINVAL) \<and>
   remapErrorCode False coll ENGINE_COLLECTIONS_MANIFEST_IS_AHEAD =
     (if coll then ENGINE_COLLECTIONS_MANIFEST_IS_AHEAD else ENGINE_EINVAL) \<and>
   (\<forall>c \<in> set whitelist. remapErrorCode False coll c = c)"
  by (simp add: whitelist_def)

theorem remapErrorCode_table_witness:
  "ENGINE_ROLLBACK \<in> set whitelist \<and> remapErrorCode False False ENGINE_ROLLBACK = ENGINE_ROLLBACK"
  using remapErrorCode_table [of False ENGINE_ROLLBACK]
  by (simp add: whitelist_def)

section \<open>DCP connections never wait\<close>

lemma setCurrentState_isDCP: "isDCP (setCurrentState task sm) = isDCP sm"
  by (simp add: setCurrentState_def Let_def)

lemma setCurrentState_dcp_not_waiting:
  "isDCP sm \<Longrightarrow> currentState sm \<noteq> waiting \<Longrightarrow> currentState (setCurrentState task sm) \<noteq> waiting"
  by (simp add: setCurrentState_def Let_def)

lemma setStates_dcp_not_waiting:
  "isDCP sm \<Longrightarrow> currentState sm \<noteq> waiting \<Longrightarrow> currentState (setStates tasks sm) \<noteq> waiting"
proof (induction tasks arbitrary: sm)
  case Nil then show ?case by simp
next
  case (Cons t ts)
  then show ?case
    using setCurrentState_isDCP setCurrentState_dcp_not_waiting by simp
qed

lemma setStates_isDCP: "isDCP (setStates tasks sm) = isDCP sm"
  by (induction tasks arbitrary: sm) (simp_all add: setCurrentState_isDCP)

text \<open>
  C8. On a DCP connection a request for the \<open>waiting\<close> state is rewritten to
  \<open>ship_log\<close>, so a DCP connection that is outside \<open>waiting\<close> stays outside it
  through any sequence of state changes, and each request for \<open>waiting\<close> puts it in
  \<open>ship_log\<close>. On a connection that is not DCP the requested state is taken as it is.
\<close>

theorem dcp_never_waiting:
  "(isDCP sm \<longrightarrow> currentState sm \<noteq> waiting \<longrightarrow>
      currentState (setStates tasks sm) \<noteq> waiting \<and>
      currentState (setCurrentState waiting (setStates tasks sm)) = ship_log) \<and>
   (\<not> isDCP sm \<longrightarrow> currentState (setCurrentState task sm) = task)"
proof (intro conjI impI)
  assume dcp: "isDCP sm" and nw: "currentState sm \<noteq> waiting"
  show "currentState (setStates tasks sm) \<noteq> waiting"
    using dcp nw by (rule setStates_dcp_not_waiting)
  moreover have "isDCP (setStates tasks sm)"
    using dcp by (simp add: setStates_isDCP)
  ultimately show "currentState (setCurrentState waiting (setStates tasks sm)) = ship_log"
    by (simp add: setCurrentState_def Let_def)
next
  assume "\<not> isDCP sm"
  then show "currentState (setCurrentState task sm) = task"
    by (simp add: setCurrentState_def Let_def)
qed

theorem dcp_never_waiting_witness:
  "currentState (setStates [send_data, new_cmd, waiting, read_packet_header, waiting]
      \<lparr>currentState = execute, isDCP = True\<rparr>) \<noteq> waiting \<and>
   currentState (setCurrentState waiting (setStates [send_data, new_cmd]
      \<lparr>currentState = execute, isDCP = True\<rparr>)) = ship_log \<and>
   currentState (setCurrentState waiting \<lparr>currentState = new_cmd, isDCP = False\<rparr>) = waiting"
  using dcp_never_waiting [of "\<lparr>currentState = execute, isDCP = True\<rparr>"
          "[send_data, new_cmd, waiting, read_packet_header, waiting]" waiting]
        dcp_never_waiting [of "\<lparr>currentState = execute, isDCP = True\<rparr>"
          "[send_data, new_cmd]" waiting]
        dcp_never_waiting [of "\<lparr>currentState = new_cmd, isDCP = False\<rparr>" "[]" waiting]
  by simp

section \<open>Idle signalling\<close>

text \<open>
  C10. \<open>signalIfIdle\<close> returns false and leaves the worker's notification list
  untouched whenever a cookie of the connection is blocked; it returns true exactly
  when no cookie is blocked and the state machine is in an idle state, and only then
  pushes the connection and notifies the thread.
\<close>

theorem signalIfIdle_blocked:
  "((\<exists>ck \<in> set (cookies c). isEwouldblock ck) \<longrightarrow> signalIfIdle push c thr = (False, thr)) \<and>
   (fst (signalIfIdle push c thr) \<longleftrightarrow>
      (\<forall>ck \<in> set (cookies c). \<not> isEwouldblock ck) \<and> isIdleState (getState c)) \<and>
   (fst (signalIfIdle push c thr) \<longrightarrow>
      snd (signalIfIdle push c thr) =
        thr\<lparr>notification := push (conn_id c) (notification thr), notified := Suc (notified thr)\<rparr>) \<and>
   (\<not> fst (signalIfIdle push c thr) \<longrightarrow> snd (signalIfIdle push c thr) = thr)"
  by (auto simp: signalIfIdle_def getState_def list_ex_iff)

theorem signalIfIdle_blocked_witness:
  "signalIfIdle (\<lambda>c xs. if c \<in> set xs then xs else xs @ [c])
      (conn0\<lparr>cookies := [cookie0, cookie0\<lparr>ewouldblock := True\<rparr>]\<rparr>)
      \<lparr>notification = [], notified = 0\<rparr> = (False, \<lparr>notification = [], notified = 0\<rparr>) \<and>
   signalIfIdle (\<lambda>c xs. if c \<in> set xs then xs else xs @ [c]) conn0
      \<lparr>notification = [], notified = 0\<rparr> = (True, \<lparr>notification = [1], notified = 1\<rparr>)"
  using signalIfIdle_blocked [of "conn0\<lparr>cookies := [cookie0, cookie0\<lparr>ewouldblock := True\<rparr>]\<rparr>"
          "\<lambda>c xs. if c \<in> set xs then xs else xs @ [c]" "\<lparr>notification = [], notified = 0\<rparr>"]
        signalIfIdle_blocked [of conn0
          "\<lambda>c xs. if c \<in> set xs then xs else xs @ [c]" "\<lparr>notification = [], notified = 0\<rparr>"]
  by (simp add: conn0_def cookie0_def isEwouldblock_def getState_def prod_eq_iff)


section \<open>Send-queue stall\<close>

lemma getState_setState_closing: "getState (setState closing c) = closing"
  by (simp add: getState_def setState_def setCurrentState_def Let_def)

lemma close_when_term:
  "term_sq (sendQueueInfo c) \<Longrightarrow>
   unat (conn_refcount c) + sum_list (map (\<lambda>ck. unat (getRefcount ck)) (cookies c)) \<le> 1 \<Longrightarrow>
   isDCP (stateMachine c) \<or> \<not> list_ex isEwouldblock (cookies c) \<Longrightarrow>
   fst (close reset c) \<and> getState (snd (close reset c)) = immediate_close"
  by (auto simp: close_def Let_def havePendingData_def getState_def setState_def
        setCurrentState_def)

text \<open>
  C7. When the send buffer is non-empty, has the size recorded at the last run and that
  record is older than the grace window (29 seconds for a Ready bucket, 1 second
  otherwise, on the nanosecond clock), the check at the head of
  \<open>runStateMachinery\<close> sets the termination flag and moves the connection to
  \<open>closing\<close>, with the send buffer still undrained. Whenever the termination flag
  is set, \<open>havePendingData\<close> reports no pending data, so that \<open>close\<close>, when
  no reference and no blocked cookie holds it back, finalizes (returns true, state
  \<open>immediate_close\<close>) whatever is left in the send buffer.
\<close>

theorem send_queue_stall:
  "(getSendQueueSize c \<noteq> 0 \<longrightarrow>
    size_sq (sendQueueInfo c) = getSendQueueSize c \<longrightarrow>
    now - last_sq (sendQueueInfo c) > (if bucketState c = Ready then 29000000000 else 1000000000) \<longrightarrow>
      term_sq (sendQueueInfo (runStateMachinery_check now c)) \<and>
      getState (runStateMachinery_check now c) = closing \<and>
      getSendQueueSize (runStateMachinery_check now c) = getSendQueueSize c) \<and>
   (term_sq (sendQueueInfo c) \<longrightarrow> \<not> havePendingData c) \<and>
   (term_sq (sendQueueInfo c) \<longrightarrow>
    unat (conn_refcount c) + sum_list (map (\<lambda>ck. unat (getRefcount ck)) (cookies c)) \<le> 1 \<longrightarrow>
    isDCP (stateMachine c) \<or> \<not> list_ex isEwouldblock (cookies c) \<longrightarrow>
      fst (close reset c) \<and> getState (snd (close reset c)) = immediate_close)"
proof (intro conjI)
  show "getSendQueueSize c \<noteq> 0 \<longrightarrow>
    size_sq (sendQueueInfo c) = getSendQueueSize c \<longrightarrow>
    now - last_sq (sendQueueInfo c) > (if bucketState c = Ready then 29000000000 else 1000000000) \<longrightarrow>
      term_sq (sendQueueInfo (runStateMachinery_check now c)) \<and>
      getState (runStateMachinery_check now c) = closing \<and>
      getSendQueueSize (runStateMachinery_check now c) = getSendQueueSize c"
    by (simp add: runStateMachinery_check_def Let_def seconds_def getState_setState_closing)
       (simp add: setState_def getSendQueueSize_def)
  show "term_sq (sendQueueInfo c) \<longrightarrow> \<not> havePendingData c"
    by (simp add: havePendingData_def)
  show "term_sq (sendQueueInfo c) \<longrightarrow>
    unat (conn_refcount c) + sum_list (map (\<lambda>ck. unat (getRefcount ck)) (cookies c)) \<le> 1 \<longrightarrow>
    isDCP (stateMachine c) \<or> \<not> list_ex isEwouldblock (cookies c) \<longrightarrow>
      fst (close reset c) \<and> getState (snd (close reset c)) = immediate_close"
    using close_when_term [of c reset] by blast
qed

theorem send_queue_stall_witness:
  "term_sq (sendQueueInfo (runStateMachinery_check 30000000000
      (conn0\<lparr>sendQueueSize := 8192,
             sendQueueInfo := \<lparr>last_sq = 0, size_sq = 8192, term_sq = False\<rparr>\<rparr>))) \<and>
   getState (runStateMachinery_check 30000000000
      (conn0\<lparr>sendQueueSize := 8192,
             sendQueueInfo := \<lparr>last_sq = 0, size_sq = 8192, term_sq = False\<rparr>\<rparr>)) = closing \<and>
   \<not> havePendingData (runStateMachinery_check 30000000000
      (conn0\<lparr>sendQueueSize := 8192,
             sendQueueInfo := \<lparr>last_sq = 0, size_sq = 8192, term_sq = False\<rparr>\<rparr>)) \<and>
   fst (close (\<lambda>ck. ck) (runStateMachinery_check 30000000000
      (conn0\<lparr>sendQueueSize := 8192,
             sendQueueInfo := \<lparr>last_sq = 0, size_sq = 8192, term_sq = False\<rparr>\<rparr>)))"
  using send_queue_stall [of "conn0\<lparr>sendQueueSize := 8192,
             sendQueueInfo := \<lparr>last_sq = 0, size_sq = 8192, term_sq = False\<rparr>\<rparr>"
             30000000000 "\<lambda>ck. ck"]
        send_queue_stall [of "runStateMachinery_check 30000000000
      (conn0\<lparr>sendQueueSize := 8192,
             sendQueueInfo := \<lparr>last_sq = 0, size_sq = 8192, term_sq = False\<rparr>\<rparr>)" 0 "\<lambda>ck. ck"]
  by (simp add: conn0_def cookie0_def getSendQueueSize_def getRefcount_def isEwouldblock_def
        runStateMachinery_check_def seconds_def setState_def Let_def)

section \<open>Validation failures\<close>

text \<open>
  C4, as stated, fails: a request with a known opcode that the per-opcode packet validator
  rejects with \<open>Einval\<close> leaves write-and-go at \<open>closing\<close>; the connection does not
  continue to the next command.
\<close>

theorem conn_validate_einval_closes_counterexample:
  "writeAndGo (snd (conn_validate
      \<lparr>bucket_dying = False, isRequest = True, client_magic = True, valid_opcode = True,
       validator_result = Einval\<rparr> conn0)) = closing"
  by (simp add: conn_validate_def sendResponse_def setWriteAndGo_def setState_def conn0_def Let_def)

text \<open>
  C4, amended. For a request in the validate state: a client request with an unknown
  opcode is answered with \<open>UnknownCommand\<close> and write-and-go is \<open>new_cmd\<close> (the
  connection continues); any rejection by the packet validator, whatever its status, is
  answered with that status and write-and-go is \<open>closing\<close>; a client request that
  passes moves to \<open>execute\<close> without a response; a request with a server magic gets no
  response and the connection moves to \<open>closing\<close> at once.
\<close>

theorem conn_validate_failures:
  "\<not> bucket_dying inp \<Longrightarrow> isRequest inp \<Longrightarrow>
   (client_magic inp \<and> \<not> valid_opcode inp \<longrightarrow>
      responses (snd (conn_validate inp c)) = responses c @ [UnknownCommand] \<and>
      writeAndGo (snd (conn_validate inp c)) = new_cmd) \<and>
   (client_magic inp \<and> valid_opcode inp \<and> validator_result inp \<noteq> Success \<longrightarrow>
      responses (snd (conn_validate inp c)) = responses c @ [validator_result inp] \<and>
      writeAndGo (snd (conn_validate inp c)) = closing) \<and>
   (client_magic inp \<and> valid_opcode inp \<and> validator_result inp = Success \<longrightarrow>
      responses (snd (conn_validate inp c)) = responses c \<and>
      writeAndGo (snd (conn_validate inp c)) = writeAndGo c \<and>
      getState (snd (conn_validate inp c)) = execute) \<and>
   (\<not> client_magic inp \<longrightarrow>
      responses (snd (conn_validate inp c)) = responses c \<and>
      getState (snd (conn_validate inp c)) = closing)"
  by (simp add: conn_validate_def sendResponse_def setWriteAndGo_def setState_def Let_def
        getState_def setCurrentState_def)

theorem conn_validate_failures_witness:
  "responses (snd (conn_validate
      \<lparr>bucket_dying = False, isRequest = True, client_magic = True, valid_opcode = False,
       validator_result = Success\<rparr> conn0)) = [UnknownCommand] \<and>
   writeAndGo (snd (conn_validate
      \<lparr>bucket_dying = False, isRequest = True, client_magic = True, valid_opcode = False,
       validator_result = Success\<rparr> conn0)) = new_cmd \<and>
   responses (snd (conn_validate
      \<lparr>bucket_dying = False, isRequest = True, client_magic = True, valid_opcode = True,
       validator_result = UnknownFrameInfo\<rparr> conn0)) = [UnknownFrameInfo] \<and>
   writeAndGo (snd (conn_validate
      \<lparr>bucket_dying = False, isRequest = True, client_magic = True, valid_opcode = True,
       validator_result = UnknownFrameInfo\<rparr> conn0)) = closing \<and>
   getState (snd (conn_validate
      \<lparr>bucket_dying = False, isRequest = True, client_magic = True, valid_opcode = True,
       validator_result = Success\<rparr> conn0)) = execute \<and>
   getState (snd (conn_validate
      \<lparr>bucket_dying = False, isRequest = True, client_magic = False, valid_opcode = True,
       validator_result = Success\<rparr> conn0)) = closing"
  using conn_validate_failures [of
      "\<lparr>bucket_dying = False, isRequest = True, client_magic = True, valid_opcode = False,
       validator_result = Success\<rparr>" conn0]
    conn_validate_failures [of
      "\<lparr>bucket_dying = False, isRequest = True, client_magic = True, valid_opcode = True,
       validator_result = UnknownFrameInfo\<rparr>" conn0]
    conn_validate_failures [of
      "\<lparr>bucket_dying = False, isRequest = True, client_magic = True, valid_opcode = True,
       validator_result = Success\<rparr>" conn0]
    conn_validate_failures [of
      "\<lparr>bucket_dying = False, isRequest = True, client_magic = False, valid_opcode = True,
       validator_result = Success\<rparr>" conn0]
  by (simp add: conn0_def)

section \<open>Stale privilege contexts are rebuilt at most 100 times\<close>

lemma loop_bound:
  "retries \<le> max_retries \<Longrightarrow> checkPrivilege_loop env p ctx retries = Inr x \<Longrightarrow>
   (case x of ReturnedFail c n \<Rightarrow> retries < n \<and> n \<le> max_retries
            | Exited a c n \<Rightarrow> retries \<le> n \<and> n \<le> max_retries \<and> (a = Stale \<longrightarrow> n = max_retries) \<and>
                 (check env retries ctx p = Stale \<and> retries < max_retries \<longrightarrow> retries < n))"
proof (induction env p ctx retries rule: checkPrivilege_loop.induct)
  case (1 env privilege ctx retries)
  show ?case
  proof (cases "check env retries ctx privilege = Stale \<and> retries < max_retries")
    case False
    then show ?thesis using "1.prems" by (auto simp: not_less)
  next
    case True
    then have s: "Suc retries \<le> max_retries" by simp
    show ?thesis
    proof (cases "createContext env (Suc retries) (bucketName env)")
      case (Created ctx')
      then have "checkPrivilege_loop env privilege ctx' (Suc retries) = Inr x"
        using True "1.prems" by simp
      from "1.IH"(1)[OF True Created s this] show ?thesis
        by (auto split: loop_exit.splits)
    next
      case NoSuchBucketException
      show ?thesis
      proof (cases "createContext env (Suc retries) []")
        case (Created ctx')
        then have "checkPrivilege_loop env privilege ctx' (Suc retries) = Inr x"
          using True NoSuchBucketException "1.prems" by simp
        from "1.IH"(2)[OF True NoSuchBucketException Created s this] show ?thesis
          by (auto split: loop_exit.splits)
      next
        case NoSuchBucketException
        then show ?thesis using True \<open>createContext env (Suc retries) (bucketName env) = NoSuchBucketException\<close> "1.prems" by simp
      next
        case RbacException
        then show ?thesis using True NoSuchBucketException "1.prems" by simp
      qed
    next
      case RbacException
      then show ?thesis using True "1.prems" s by auto
    qed
  qed
qed

lemma loop_all_stale:
  assumes st: "\<And>n c. check env n c p = Stale"
      and cr: "\<And>n. \<exists>c. createContext env n (bucketName env) = Created c"
  shows "retries \<le> max_retries \<Longrightarrow>
         \<exists>c. checkPrivilege_loop env p ctx retries = Inr (Exited Stale c max_retries)"
proof (induction "max_retries - retries" arbitrary: retries ctx)
  case 0
  then have "retries = max_retries" by simp
  then show ?case using st by simp
next
  case (Suc k)
  then have lt: "retries < max_retries" and k: "k = max_retries - Suc retries" by simp_all
  obtain c' where c': "createContext env (Suc retries) (bucketName env) = Created c'"
    using cr by blast
  have "\<exists>c. checkPrivilege_loop env p c' (Suc retries) = Inr (Exited Stale c max_retries)"
    using Suc.hyps(1)[OF k] lt by simp
  then show ?case using st lt c' by simp
qed


text \<open>
  C1. In one privilege check, every \<open>Stale\<close> answer met with fewer than 100 rebuilds
  behind it triggers a rebuild of the privilege context (so a check that starts
  \<open>Stale\<close> rebuilds at least once), the number of rebuilds never exceeds 100, and
  \<open>Stale\<close> is returned to the caller only after exactly 100 rebuilds: if the context
  stays stale however often it is rebuilt, the check does return, with \<open>Stale\<close>,
  after 100 rebuilds. The counter is local to the check.
\<close>

theorem checkPrivilege_rebuilds:
  "(checkPrivilege env p ctx = Inr r \<longrightarrow>
      rebuilds r \<le> 100 \<and>
      (check env 0 ctx p = Stale \<longrightarrow> 1 \<le> rebuilds r) \<and>
      (access r = Stale \<longrightarrow> rebuilds r = 100)) \<and>
   ((\<forall>n c. check env n c p = Stale) \<and>
    (\<forall>n. \<exists>c. createContext env n (bucketName env) = Created c) \<longrightarrow>
      (\<exists>r. checkPrivilege env p ctx = Inr r \<and> access r = Stale \<and> rebuilds r = 100))"
proof (intro conjI impI)
  assume r: "checkPrivilege env p ctx = Inr r"
  then obtain x where x: "checkPrivilege_loop env p ctx 0 = Inr x"
    by (auto simp: checkPrivilege_def split: sum.splits)
  note b = loop_bound [OF _ x, simplified]
  show "rebuilds r \<le> 100"
    using r x b by (auto simp: checkPrivilege_def max_retries_def split: loop_exit.splits if_splits)
  show "1 \<le> rebuilds r" if "check env 0 ctx p = Stale"
    using r x b that
    by (auto simp: checkPrivilege_def max_retries_def split: loop_exit.splits if_splits)
  show "rebuilds r = 100" if "access r = Stale"
    using r x b that
    by (auto simp: checkPrivilege_def max_retries_def split: loop_exit.splits if_splits)
next
  assume a: "(\<forall>n c. check env n c p = Stale) \<and>
    (\<forall>n. \<exists>c. createContext env n (bucketName env) = Created c)"
  then obtain c where "checkPrivilege_loop env p ctx 0 = Inr (Exited Stale c max_retries)"
    using loop_all_stale [of env p 0 ctx] by auto
  then show "\<exists>r. checkPrivilege env p ctx = Inr r \<and> access r = Stale \<and> rebuilds r = 100"
    by (simp add: checkPrivilege_def max_retries_def)
qed

theorem checkPrivilege_rebuilds_witness:
  "checkPrivilege rbac_env0 () 0 =
     Inr \<lparr>access = Ok, privilegeContext = 2, rebuilds = 2, errorContext = None\<rparr> \<and>
   (\<exists>r. checkPrivilege (rbac_env0\<lparr>check := \<lambda>n c p. Stale\<rparr>) () 0 = Inr r \<and>
        access r = Stale \<and> rebuilds r = 100)"
  using checkPrivilege_rebuilds [of rbac_env0 "()" 0
          "\<lparr>access = Ok, privilegeContext = 2, rebuilds = 2, errorContext = None\<rparr>"]
        checkPrivilege_rebuilds [of "rbac_env0\<lparr>check := \<lambda>n c p. Stale\<rparr>" "()" 0]
  by (simp add: rbac_env0_def checkPrivilege_def max_retries_def)

section \<open>Automatic retry of sub-document mutations\<close>

lemma attempt_no_retry:
  "subdoc_attempt env False h ret n \<noteq> Continue ev"
  by (auto simp: subdoc_attempt_def Let_def split: prod.splits)

lemma attempt_return_no_reset:
  "subdoc_attempt env ar h ret n = Return ev \<Longrightarrow> ContextReset \<notin> set ev \<and> SendResponse Etmpfail \<notin> set ev"
  by (auto simp: subdoc_attempt_def Let_def split: prod.splits if_splits)

lemma attempt_auto_retry_no_eexists:
  "subdoc_attempt env True h ret n = Return ev \<Longrightarrow> SendResponseErrc ENGINE_KEY_EEXISTS \<notin> set ev"
  by (auto simp: subdoc_attempt_def Let_def split: prod.splits if_splits)

lemma attempt_continue:
  "subdoc_attempt env ar h ret n = Continue ev \<Longrightarrow>
     SendResponseErrc ENGINE_KEY_EEXISTS \<notin> set ev \<and> SendResponse Etmpfail \<notin> set ev \<and>
     last ev = ContextReset \<and> ev \<noteq> []"
  by (auto simp: subdoc_attempt_def Let_def split: prod.splits if_splits)

lemma loop_attempts:
  "attempts < MAXIMUM_ATTEMPTS \<Longrightarrow>
   attempts < attempts_made (subdoc_loop env ar h ret tr attempts) \<and>
   attempts_made (subdoc_loop env ar h ret tr attempts) \<le> MAXIMUM_ATTEMPTS"
proof (induction env ar h ret tr attempts rule: subdoc_loop.induct)
  case (1 env ar h ret tr attempts)
  show ?case
  proof (cases "subdoc_attempt env ar h ret (Suc attempts)")
    case (Return ev)
    then show ?thesis using "1.prems" by simp
  next
    case (Continue ev)
    show ?thesis
    proof (cases "ar \<and> Suc attempts < MAXIMUM_ATTEMPTS")
      case True
      with "1.IH"[OF Continue True] Continue show ?thesis by simp
    next
      case False
      then show ?thesis using Continue "1.prems" by auto
    qed
  qed
qed

lemma loop_no_auto_retry:
  "subdoc_loop env False h ret tr attempts =
     (case subdoc_attempt env False h ret (Suc attempts) of
        Return ev \<Rightarrow> \<lparr>trace = tr @ ev, attempts_made = Suc attempts\<rparr>
      | Continue ev \<Rightarrow> \<lparr>trace = tr @ ev @ [SendResponse Etmpfail], attempts_made = Suc attempts\<rparr>)"
  by (simp split: attempt_exit.splits)

lemma loop_tmpfail:
  "SendResponse Etmpfail \<notin> set tr \<Longrightarrow>
   SendResponse Etmpfail \<in> set (trace (subdoc_loop env True h ret tr attempts)) \<Longrightarrow>
   attempts < MAXIMUM_ATTEMPTS \<Longrightarrow>
   attempts_made (subdoc_loop env True h ret tr attempts) = MAXIMUM_ATTEMPTS \<and>
   last (trace (subdoc_loop env True h ret tr attempts)) = SendResponse Etmpfail"
proof (induction env "True" h ret tr attempts rule: subdoc_loop.induct)
  case (1 env h ret tr attempts)
  show ?case
  proof (cases "subdoc_attempt env True h ret (Suc attempts)")
    case (Return ev)
    then show ?thesis using "1.prems" attempt_return_no_reset[OF Return] by simp
  next
    case (Continue ev)
    note c = attempt_continue[OF Continue]
    show ?thesis
    proof (cases "Suc attempts < MAXIMUM_ATTEMPTS")
      case True
      have "SendResponse Etmpfail \<notin> set (tr @ ev)" using c "1.prems" by simp
      with "1.hyps"[OF Continue _ this] True Continue "1.prems" show ?thesis by simp
    next
      case False
      then show ?thesis using Continue "1.prems" by simp
    qed
  qed
qed

lemma loop_no_eexists:
  "SendResponseErrc ENGINE_KEY_EEXISTS \<notin> set tr \<Longrightarrow>
   SendResponseErrc ENGINE_KEY_EEXISTS \<notin> set (trace (subdoc_loop env True h ret tr attempts))"
proof (induction env "True" h ret tr attempts rule: subdoc_loop.induct)
  case (1 env h ret tr attempts)
  show ?case
  proof (cases "subdoc_attempt env True h ret (Suc attempts)")
    case (Return ev)
    then show ?thesis using "1.prems" attempt_auto_retry_no_eexists[OF Return] by simp
  next
    case (Continue ev)
    note c = attempt_continue[OF Continue]
    show ?thesis
    proof (cases "Suc attempts < MAXIMUM_ATTEMPTS")
      case True
      have "SendResponseErrc ENGINE_KEY_EEXISTS \<notin> set (tr @ ev)" using c "1.prems" by simp
      with "1.hyps"[OF Continue _ this] True Continue show ?thesis by simp
    next
      case False
      then show ?thesis using Continue "1.prems" c by simp
    qed
  qed
qed


lemma attempt_mismatch:
  "cas_mismatch env h ret n \<Longrightarrow>
   (\<exists>ev. subdoc_attempt env True h ret n = Continue ev \<and> count_list ev ContextReset = 1) \<and>
   (\<exists>ev. subdoc_attempt env False h ret n = Return (ev @ [SendResponseErrc ENGINE_KEY_EEXISTS]))"
  by (auto simp: subdoc_attempt_def cas_mismatch_def Let_def split: prod.splits)

lemma loop_contended:
  "cas_mismatch env h ret (Suc attempts) \<Longrightarrow>
   (\<And>n. Suc attempts < n \<Longrightarrow> n \<le> MAXIMUM_ATTEMPTS \<Longrightarrow> cas_mismatch env False ENGINE_SUCCESS n) \<Longrightarrow>
   attempts < MAXIMUM_ATTEMPTS \<Longrightarrow>
   attempts_made (subdoc_loop env True h ret tr attempts) = MAXIMUM_ATTEMPTS \<and>
   last (trace (subdoc_loop env True h ret tr attempts)) = SendResponse Etmpfail \<and>
   count_list (trace (subdoc_loop env True h ret tr attempts)) ContextReset =
     count_list tr ContextReset + (MAXIMUM_ATTEMPTS - attempts)"
proof (induction env "True" h ret tr attempts rule: subdoc_loop.induct)
  case (1 env h ret tr attempts)
  obtain ev where ev: "subdoc_attempt env True h ret (Suc attempts) = Continue ev"
    and cnt: "count_list ev ContextReset = 1"
    using attempt_mismatch[OF "1.prems"(1)] by blast
  show ?case
  proof (cases "Suc attempts < MAXIMUM_ATTEMPTS")
    case True
    have m: "cas_mismatch env False ENGINE_SUCCESS (Suc (Suc attempts))"
      using "1.prems"(2)[of "Suc (Suc attempts)"] True by simp
    have r: "\<And>n. Suc (Suc attempts) < n \<Longrightarrow> n \<le> MAXIMUM_ATTEMPTS \<Longrightarrow>
               cas_mismatch env False ENGINE_SUCCESS n"
      using "1.prems"(2) by simp
    from "1.hyps"[OF ev _ m r True] True ev cnt show ?thesis by simp
  next
    case False
    then have "Suc attempts = MAXIMUM_ATTEMPTS" using "1.prems"(3) by simp
    then show ?thesis using ev cnt False by simp
  qed
qed

lemma subdoc_executor_retry:
  "attempts_made (subdoc_executor env cas h a) \<le> 100 \<and>
   (cas \<noteq> 0 \<longrightarrow>
      attempts_made (subdoc_executor env cas h a) = 1 \<and>
      ContextReset \<notin> set (trace (subdoc_executor env cas h a)) \<and>
      SendResponse Etmpfail \<notin> set (trace (subdoc_executor env cas h a))) \<and>
   (cas \<noteq> 0 \<and> cas_mismatch env h a 1 \<longrightarrow>
      last (trace (subdoc_executor env cas h a)) = SendResponseErrc ENGINE_KEY_EEXISTS) \<and>
   (cas = 0 \<longrightarrow>
      SendResponseErrc ENGINE_KEY_EEXISTS \<notin> set (trace (subdoc_executor env cas h a)) \<and>
      (SendResponse Etmpfail \<in> set (trace (subdoc_executor env cas h a)) \<longrightarrow>
         attempts_made (subdoc_executor env cas h a) = 100 \<and>
         last (trace (subdoc_executor env cas h a)) = SendResponse Etmpfail)) \<and>
   (cas = 0 \<and> cas_mismatch env h a 1 \<and>
    (\<forall>n \<in> {2..100}. cas_mismatch env False ENGINE_SUCCESS n) \<longrightarrow>
      attempts_made (subdoc_executor env cas h a) = 100 \<and>
      count_list (trace (subdoc_executor env cas h a)) ContextReset = 100 \<and>
      last (trace (subdoc_executor env cas h a)) = SendResponse Etmpfail)"
proof (intro conjI impI)
  show "attempts_made (subdoc_executor env cas h a) \<le> 100"
    using loop_attempts[of 0 env "cas = 0" h a "[]"]
    by (simp add: subdoc_executor_def MAXIMUM_ATTEMPTS_def del: subdoc_loop.simps)
next
  assume c: "cas \<noteq> 0"
  then have e: "subdoc_executor env cas h a = subdoc_loop env False h a [] 0"
    by (simp add: subdoc_executor_def del: subdoc_loop.simps)
  obtain ev where ev: "subdoc_attempt env False h a (Suc 0) = Return ev"
    using attempt_no_retry[of env h a "Suc 0"]
    by (cases "subdoc_attempt env False h a (Suc 0)") auto
  show "attempts_made (subdoc_executor env cas h a) = 1"
    using e ev by simp
  show "ContextReset \<notin> set (trace (subdoc_executor env cas h a))"
    using e ev attempt_return_no_reset[OF ev] by simp
  show "SendResponse Etmpfail \<notin> set (trace (subdoc_executor env cas h a))"
    using e ev attempt_return_no_reset[OF ev] by simp
next
  assume c: "cas \<noteq> 0 \<and> cas_mismatch env h a 1"
  then have e: "subdoc_executor env cas h a = subdoc_loop env False h a [] 0"
    by (simp add: subdoc_executor_def del: subdoc_loop.simps)
  obtain ev where "subdoc_attempt env False h a (Suc 0) =
      Return (ev @ [SendResponseErrc ENGINE_KEY_EEXISTS])"
    using attempt_mismatch[of env h a "Suc 0"] c by auto
  then show "last (trace (subdoc_executor env cas h a)) = SendResponseErrc ENGINE_KEY_EEXISTS"
    using e by simp
next
  assume c: "cas = 0"
  then have e: "subdoc_executor env cas h a = subdoc_loop env True h a [] 0"
    by (simp add: subdoc_executor_def del: subdoc_loop.simps)
  show "SendResponseErrc ENGINE_KEY_EEXISTS \<notin> set (trace (subdoc_executor env cas h a))"
    using e loop_no_eexists[of "[]" env h a 0] by (simp del: subdoc_loop.simps)
  show "attempts_made (subdoc_executor env cas h a) = 100"
    if "SendResponse Etmpfail \<in> set (trace (subdoc_executor env cas h a))"
    using that e loop_tmpfail[of "[]" env h a 0]
    by (simp add: MAXIMUM_ATTEMPTS_def del: subdoc_loop.simps)
  show "last (trace (subdoc_executor env cas h a)) = SendResponse Etmpfail"
    if "SendResponse Etmpfail \<in> set (trace (subdoc_executor env cas h a))"
    using that e loop_tmpfail[of "[]" env h a 0]
    by (simp add: MAXIMUM_ATTEMPTS_def del: subdoc_loop.simps)
next
  assume c: "cas = 0 \<and> cas_mismatch env h a 1 \<and>
    (\<forall>n \<in> {2..100}. cas_mismatch env False ENGINE_SUCCESS n)"
  then have e: "subdoc_executor env cas h a = subdoc_loop env True h a [] 0"
    by (simp add: subdoc_executor_def del: subdoc_loop.simps)
  have m1: "cas_mismatch env h a (Suc 0)" using c by simp
  have m2: "cas_mismatch env False ENGINE_SUCCESS n"
    if "Suc 0 < n" "n \<le> MAXIMUM_ATTEMPTS" for n
    using c that by (simp add: MAXIMUM_ATTEMPTS_def)
  have m3: "0 < MAXIMUM_ATTEMPTS" by (simp add: MAXIMUM_ATTEMPTS_def)
  note loop_contended [of env h a 0 "[]", OF m1 m2 m3]
  then show "attempts_made (subdoc_executor env cas h a) = 100"
    and "count_list (trace (subdoc_executor env cas h a)) ContextReset = 100"
    and "last (trace (subdoc_executor env cas h a)) = SendResponse Etmpfail"
    using e by (simp_all add: MAXIMUM_ATTEMPTS_def del: subdoc_loop.simps)
qed

lemma ap_to_store:
  "appendprepend_step store cas ValidateInput a r = appendprepend_step store cas StoreItem a r"
  "appendprepend_step store cas GetItem a r = appendprepend_step store cas StoreItem a r"
  by (simp_all add: appendprepend_step.simps[where state = ValidateInput]
        appendprepend_step.simps[where state = GetItem]
        appendprepend_step.simps[where state = AllocateNewItem])

lemma ap_store:
  "appendprepend_step store cas StoreItem a r =
     (if store (Suc a) = ENGINE_SUCCESS then (ENGINE_SUCCESS, Suc a, r)
      else if store (Suc a) = ENGINE_KEY_EEXISTS \<and> cas = 0
      then (if Suc a < 100 then appendprepend_step store cas StoreItem (Suc a) (Suc r)
            else (ENGINE_TMPFAIL, Suc a, r))
      else (store (Suc a), Suc a, r))"
  by (simp add: appendprepend_step.simps[where state = StoreItem]
        appendprepend_step.simps[where state = Reset]
        appendprepend_step.simps[where state = Done] ap_to_store Let_def)

lemma ap_bound:
  "a < 100 \<Longrightarrow> fst (snd (appendprepend_step store cas StoreItem a r)) \<le> 100"
proof (induction "100 - a" arbitrary: a r)
  case 0
  then show ?case by simp
next
  case (Suc k)
  then have "k = 100 - Suc a" by simp
  from Suc.hyps(1)[OF this] Suc.prems show ?case
    by (subst ap_store) auto
qed

lemma ap_with_cas:
  "cas \<noteq> 0 \<Longrightarrow> appendprepend_step store cas StoreItem a r = (store (Suc a), Suc a, r)"
  by (subst ap_store) simp

lemma ap_contended:
  "a < 100 \<Longrightarrow> (\<And>n. a < n \<Longrightarrow> n \<le> 100 \<Longrightarrow> store n = ENGINE_KEY_EEXISTS) \<Longrightarrow>
   appendprepend_step store 0 StoreItem a r = (ENGINE_TMPFAIL, 100, r + (99 - a))"
proof (induction "100 - a" arbitrary: a r)
  case 0
  then show ?case by simp
next
  case (Suc k)
  then have k: "k = 100 - Suc a" by simp
  have st: "store (Suc a) = ENGINE_KEY_EEXISTS" using Suc.prems by simp
  show ?case
  proof (cases "Suc a < 100")
    case True
    have "appendprepend_step store 0 StoreItem (Suc a) (Suc r) =
            (ENGINE_TMPFAIL, 100, Suc r + (99 - Suc a))"
      using Suc.hyps(1)[OF k True] Suc.prems(2) by simp
    then show ?thesis using st True by (subst ap_store) simp
  next
    case False
    then have "a = 99" using Suc.prems(1) by simp
    then show ?thesis using st by (subst ap_store) simp
  qed
qed


text \<open>
  C6. \<open>subdoc_executor\<close> makes at most 100 attempts. When the client supplied a CAS
  it makes exactly one, never resets the command context, and a CAS mismatch
  (key-exists) from the store is sent to the client as it is. When the client supplied
  no CAS, a mismatch is never sent to the client: the command context is reset and the
  operation is tried again, as long as fewer than 100 attempts have been made; the
  executor answers TempFail only after the 100th attempt, and does so when all 100
  attempts meet a mismatch, each followed by a reset of the context. The append/prepend
  context, as the spec has it, does the same: at most 100 attempts, a single attempt
  whose code is returned as it is when the client supplied a CAS, and TempFail after
  100 mismatches when it did not.
\<close>

theorem cas_mismatch_retry:
  "attempts_made (subdoc_executor env cas h a) \<le> 100 \<and>
   (cas \<noteq> 0 \<longrightarrow>
      attempts_made (subdoc_executor env cas h a) = 1 \<and>
      ContextReset \<notin> set (trace (subdoc_executor env cas h a)) \<and>
      SendResponse Etmpfail \<notin> set (trace (subdoc_executor env cas h a))) \<and>
   (cas \<noteq> 0 \<and> cas_mismatch env h a 1 \<longrightarrow>
      last (trace (subdoc_executor env cas h a)) = SendResponseErrc ENGINE_KEY_EEXISTS) \<and>
   (cas = 0 \<longrightarrow>
      SendResponseErrc ENGINE_KEY_EEXISTS \<notin> set (trace (subdoc_executor env cas h a)) \<and>
      (SendResponse Etmpfail \<in> set (trace (subdoc_executor env cas h a)) \<longrightarrow>
         attempts_made (subdoc_executor env cas h a) = 100 \<and>
         last (trace (subdoc_executor env cas h a)) = SendResponse Etmpfail)) \<and>
   (cas = 0 \<and> cas_mismatch env h a 1 \<and>
    (\<forall>n \<in> {2..100}. cas_mismatch env False ENGINE_SUCCESS n) \<longrightarrow>
      attempts_made (subdoc_executor env cas h a) = 100 \<and>
      count_list (trace (subdoc_executor env cas h a)) ContextReset = 100 \<and>
      last (trace (subdoc_executor env cas h a)) = SendResponse Etmpfail) \<and>
   fst (snd (appendprepend_step store cas ValidateInput 0 0)) \<le> 100 \<and>
   (cas \<noteq> 0 \<longrightarrow> appendprepend_step store cas ValidateInput 0 0 = (store 1, 1, 0)) \<and>
   (cas = 0 \<and> (\<forall>n \<in> {1..100}. store n = ENGINE_KEY_EEXISTS) \<longrightarrow>
      appendprepend_step store cas ValidateInput 0 0 = (ENGINE_TMPFAIL, 100, 99))"
proof -
  have 1: "fst (snd (appendprepend_step store cas ValidateInput 0 0)) \<le> 100"
    using ap_bound[of 0 store cas 0] by (simp add: ap_to_store)
  have 2: "appendprepend_step store cas ValidateInput 0 0 = (store 1, 1, 0)" if "cas \<noteq> 0"
    using ap_with_cas[OF that, of store 0 0] by (simp add: ap_to_store)
  have 3: "appendprepend_step store cas ValidateInput 0 0 = (ENGINE_TMPFAIL, 100, 99)"
    if "cas = 0 \<and> (\<forall>n \<in> {1..100}. store n = ENGINE_KEY_EEXISTS)"
    using ap_contended[of 0 store 0] that by (simp add: ap_to_store)
  show ?thesis
    using subdoc_executor_retry[of env cas h a] 1 2 3 by blast
qed

theorem cas_mismatch_retry_witness:
  "attempts_made (subdoc_executor contended 0 False ENGINE_SUCCESS) = 100 \<and>
   count_list (trace (subdoc_executor contended 0 False ENGINE_SUCCESS)) ContextReset = 100 \<and>
   last (trace (subdoc_executor contended 0 False ENGINE_SUCCESS)) = SendResponse Etmpfail \<and>
   attempts_made (subdoc_executor contended 42 False ENGINE_SUCCESS) = 1 \<and>
   last (trace (subdoc_executor contended 42 False ENGINE_SUCCESS)) =
     SendResponseErrc ENGINE_KEY_EEXISTS \<and>
   appendprepend_step (\<lambda>n. ENGINE_KEY_EEXISTS) 0 ValidateInput 0 0 = (ENGINE_TMPFAIL, 100, 99) \<and>
   appendprepend_step (\<lambda>n. ENGINE_KEY_EEXISTS) 42 ValidateInput 0 0 = (ENGINE_KEY_EEXISTS, 1, 0)"
  using cas_mismatch_retry [of contended 0 False ENGINE_SUCCESS "\<lambda>n. ENGINE_KEY_EEXISTS"]
        cas_mismatch_retry [of contended 42 False ENGINE_SUCCESS "\<lambda>n. ENGINE_KEY_EEXISTS"]
  by (simp add: contended_def cas_mismatch_def)

section \<open>Error responses carry the error object\<close>







section \<open>A DCP mutation with a stream id on the wire\<close>

lemma put_empty: "seg_size seg = 0 \<Longrightarrow> put ok seg st = (None, st)"
  by (cases seg) (simp_all add: copyToOutputStream_def chainDataToOutputStream_def)

lemma put_ok:
  "seg_size seg \<noteq> 0 \<Longrightarrow> ok (calls st) \<Longrightarrow>
   put ok seg st = (None, st\<lparr>segments := segments st @ [seg], calls := Suc (calls st),
                              totalSend := totalSend st + seg_size seg\<rparr>)"
  by (cases seg) (simp_all add: copyToOutputStream_def chainDataToOutputStream_def libevent_add_def)

lemma put_fail:
  "seg_size seg \<noteq> 0 \<Longrightarrow> \<not> ok (calls st) \<Longrightarrow>
   put ok seg st = (Some bad_alloc, st\<lparr>calls := Suc (calls st)\<rparr>)"
  by (cases seg) (simp_all add: copyToOutputStream_def chainDataToOutputStream_def libevent_add_def)

lemma run_steps_filter:
  "run_steps (map (put ok) segs) st =
   run_steps (map (put ok) (filter (\<lambda>seg. seg_size seg \<noteq> 0) segs)) st"
  by (induction segs arbitrary: st) (simp_all add: put_empty split: prod.splits option.splits)

lemma run_steps_put:
  "\<forall>seg \<in> set segs. seg_size seg \<noteq> 0 \<Longrightarrow>
   \<exists>k \<le> length segs.
     (\<forall>n < k. ok (calls st + n)) \<and>
     (k < length segs \<longrightarrow> \<not> ok (calls st + k)) \<and>
     segments (snd (run_steps (map (put ok) segs) st)) = segments st @ take k segs \<and>
     fst (run_steps (map (put ok) segs) st) = (if k = length segs then None else Some bad_alloc)"
proof (induction segs arbitrary: st)
  case Nil
  then show ?case by simp
next
  case (Cons seg segs)
  then have ne: "seg_size seg \<noteq> 0" and rest: "\<forall>s \<in> set segs. seg_size s \<noteq> 0" by simp_all
  show ?case
  proof (cases "ok (calls st)")
    case False
    show ?thesis
      by (rule exI[of _ 0]) (simp add: put_fail[of seg ok st, OF ne False] False)
  next
    case True
    let ?st1 = "st\<lparr>segments := segments st @ [seg], calls := Suc (calls st),
                   totalSend := totalSend st + seg_size seg\<rparr>"
    from Cons.IH[OF rest, of ?st1] obtain k where k: "k \<le> length segs"
      "\<forall>n < k. ok (calls ?st1 + n)"
      "k < length segs \<longrightarrow> \<not> ok (calls ?st1 + k)"
      "segments (snd (run_steps (map (put ok) segs) ?st1)) = segments ?st1 @ take k segs"
      "fst (run_steps (map (put ok) segs) ?st1) = (if k = length segs then None else Some bad_alloc)"
      by blast
    have all: "\<forall>n < Suc k. ok (calls st + n)"
    proof (intro allI impI)
      fix n assume "n < Suc k"
      then show "ok (calls st + n)"
        using True k(2) by (cases n) simp_all
    qed
    show ?thesis
      by (rule exI[of _ "Suc k"]) (use k all in \<open>simp add: put_ok[of seg ok st, OF ne True]\<close>)
  qed
qed


lemma chain_or_skip:
  "(if buffer \<noteq> [] then chainDataToOutputStream ok buffer it else Pair None) =
   put ok (Referenced buffer it)"
  by (rule ext) (simp add: chainDataToOutputStream_def)

lemma cleanup_copied:
  "\<forall>seg \<in> set segs. \<exists>d. seg = Copied d \<Longrightarrow> concat (map sendbuffer_cleanup_cb segs) = []"
  by (induction segs) auto

lemma cleanup_prefix:
  "concat (map sendbuffer_cleanup_cb
     (take k (cs @ filter (\<lambda>seg. seg_size seg \<noteq> 0) [Copied a, Referenced v it, Copied b]))) =
   (if Referenced v it \<in> set (take k (cs @ filter (\<lambda>seg. seg_size seg \<noteq> 0)
                                       [Copied a, Referenced v it, Copied b]))
    then [it] else [])"
  if "\<forall>seg \<in> set cs. \<exists>d. seg = Copied d"
proof -
  let ?tl = "filter (\<lambda>seg. seg_size seg \<noteq> 0) [Copied a, Referenced v it, Copied b]"
  have c1: "concat (map sendbuffer_cleanup_cb (take k cs)) = []"
    using that by (intro cleanup_copied) (auto dest: in_set_takeD)
  have c2: "Referenced v it \<notin> set (take k cs)"
    using that by (auto dest: in_set_takeD)
  have "concat (map sendbuffer_cleanup_cb (take j ?tl)) =
        (if Referenced v it \<in> set (take j ?tl) then [it] else [])" for j
    by (cases j; cases "j - 1"; cases "j - 2") auto
  then show ?thesis using c1 c2 by simp
qed


text \<open>
  C5. For a mutation with a non-zero stream id whose item info is available and whose
  lengths fit their header fields (with the alt magic the key length has one byte),
  \<open>Connection::mutation\<close> queues a prefix of the
  frame of \<open>dcp_mutation_frame\<close>: the header with the alt-client-request magic, the
  DcpStreamId frame-info with the two bytes of the stream id, the mutation extras, the
  key, the value as a segment that refers to the item's memory, and the meta. It queues
  the whole frame and returns success when every libevent call succeeds; at the first
  call that fails it stops, leaves what it had queued in the buffer and returns
  \<open>ENGINE_DISCONNECT\<close>. The item is released exactly once: by the cleanup of the
  value segment when libevent is done with it, if that segment was queued, and on return
  otherwise (an empty value is not queued).
\<close>

theorem mutation_with_stream_id:
  assumes sid: "sid \<noteq> 0"
    and info: "bucket_get_item_info env it = Some info"
    and key: "key = (if isCollectionsSupported env then info_key info
                     else makeDocKeyWithoutCollectionID env (info_key info))"
    and exp: "info_exptime info < 2 ^ 32"
    and klen: "length key < 2 ^ 8"
    and blen: "3 + 31 + length key + length (info_value info) + unat n_meta < 2 ^ 32"
    and frame: "frame = dcp_mutation_frame info key opq it vb by_seq rev_seq lock meta n_meta nru_v sid"
  shows "\<exists>r k. mutation env opq it vb by_seq rev_seq lock meta n_meta nru_v sid st = Inr r \<and>
           k \<le> length frame \<and>
           (\<forall>n < k. libevent_ok env (calls st + n)) \<and>
           (k < length frame \<longrightarrow> \<not> libevent_ok env (calls st + k)) \<and>
           segments (stream r) = segments st @ take k frame \<and>
           returned r = (if k = length frame then ENGINE_SUCCESS else ENGINE_DISCONNECT) \<and>
           released r @ concat (map sendbuffer_cleanup_cb (take k frame)) = [it]"
proof -
  let ?ok = "libevent_ok env"
  let ?req = "\<lparr>req_magic = AltClientRequest,
         req_opcode = DcpMutation,
         req_framing_extraslen = 3,
         req_keylen = of_nat (length key),
         req_extlen = 31,
         req_datatype = info_datatype info,
         req_vbucket = vb,
         req_bodylen = of_nat (3 + 31 + length key + length (info_value info) + unat n_meta),
         req_opaque = opq,
         req_cas = info_cas info\<rparr>"
  let ?extras = "\<lparr>by_seqno = by_seq, rev_seqno = rev_seq, flags = info_flags info,
         expiration = of_nat (info_exptime info), lock_time = lock,
         nmeta = n_meta, nru = nru_v\<rparr>"
  let ?six = "[Copied (HeaderBytes ?req), Copied (Bytes (DcpStreamIdFrameInfo sid)),
               Copied (ExtrasBytes ?extras), Copied (Bytes key),
               Referenced (info_value info) it, Copied (Bytes (take (unat n_meta) meta))]"
  define run where "run = run_steps (map (put ?ok) ?six) st"
  have klen16: "length key < 2 ^ 16"
    using klen by simp
  have fr: "frame = filter (\<lambda>seg. seg_size seg \<noteq> 0) ?six"
    by (simp add: frame dcp_mutation_frame_def DcpStreamIdFrameInfo_def sizeof_Request_def
          sizeof_DcpMutationPayload_def)
  have ne: "\<forall>seg \<in> set frame. seg_size seg \<noteq> 0"
    unfolding fr by simp
  have run: "run = run_steps (map (put ?ok) frame) st"
    unfolding fr run_def by (rule run_steps_filter)
  obtain k where k: "k \<le> length frame" "\<forall>n < k. ?ok (calls st + n)"
      "k < length frame \<longrightarrow> \<not> ?ok (calls st + k)"
      "segments (snd run) = segments st @ take k frame"
      "fst run = (if k = length frame then None else Some bad_alloc)"
    using run_steps_put[OF ne, of ?ok st] unfolding run by blast
  have cl: "concat (map sendbuffer_cleanup_cb (take k frame)) =
            (if Referenced (info_value info) it \<in> set (take k frame) then [it] else [])"
    unfolding frame dcp_mutation_frame_def by (rule cleanup_prefix) simp
  have b: "sizeof_DcpMutationPayload + length key + unat n_meta + length (info_value info) +
             (if sid \<noteq> 0 then sizeof_DcpStreamIdFrameInfo else 0) =
           3 + 31 + length key + length (info_value info) + unat n_meta"
    using sid by (simp add: sizeof_DcpMutationPayload_def sizeof_DcpStreamIdFrameInfo_def)
  have key_eq: "(if \<not> isCollectionsSupported env
                 then makeDocKeyWithoutCollectionID env (info_key info)
                 else info_key info) = key"
    by (simp add: key)
  let ?r = "\<lparr>returned = (if fst run = None then ENGINE_SUCCESS else ENGINE_DISCONNECT),
             stream = snd run,
             released = (if Referenced (info_value info) it \<in>
                              set (drop (length (segments st)) (segments (snd run)))
                         then [] else [it])\<rparr>"
  have m: "mutation env opq it vb by_seq rev_seq lock meta n_meta nru_v sid st = Inr ?r"
  proof (cases "fst run")
    case None
    then show ?thesis
      unfolding mutation_def Let_def info option.case key_eq b run_def
      using sid exp klen16 blen
      by (simp add: chain_or_skip sizeof_DcpMutationPayload_def sizeof_DcpStreamIdFrameInfo_def
            case_prod_beta del: run_steps.simps)
  next
    case (Some e)
    then show ?thesis
      unfolding mutation_def Let_def info option.case key_eq b run_def
      using sid exp klen16 blen
      by (simp add: chain_or_skip sizeof_DcpMutationPayload_def sizeof_DcpStreamIdFrameInfo_def
            case_prod_beta del: run_steps.simps)
  qed
  have dr: "drop (length (segments st)) (segments (snd run)) = take k frame"
    using k(4) by simp
  have "mutation env opq it vb by_seq rev_seq lock meta n_meta nru_v sid st = Inr ?r \<and>
        k \<le> length frame \<and>
        (\<forall>n < k. libevent_ok env (calls st + n)) \<and>
        (k < length frame \<longrightarrow> \<not> libevent_ok env (calls st + k)) \<and>
        segments (stream ?r) = segments st @ take k frame \<and>
        returned ?r = (if k = length frame then ENGINE_SUCCESS else ENGINE_DISCONNECT) \<and>
        released ?r @ concat (map sendbuffer_cleanup_cb (take k frame)) = [it]"
    using m k(1,2,3) by (simp add: k(4,5) dr cl)
  then show ?thesis by blast
qed


theorem mutation_with_stream_id_witness:
  "(\<exists>r. mutation mutation_env0 170 5 0 1 1 0 [] 0 0 7 ostream0 = Inr r \<and>
        returned r = ENGINE_SUCCESS \<and>
        segments (stream r) = dcp_mutation_frame item0 [0, 107] 170 5 0 1 1 0 [] 0 0 7 \<and>
        released r = []) \<and>
   (\<exists>r. mutation (mutation_env0\<lparr>libevent_ok := \<lambda>n. n < 2\<rparr>) 170 5 0 1 1 0 [] 0 0 7 ostream0 = Inr r \<and>
        returned r = ENGINE_DISCONNECT \<and>
        segments (stream r) = take 2 (dcp_mutation_frame item0 [0, 107] 170 5 0 1 1 0 [] 0 0 7) \<and>
        released r = [5])"
proof -
  define frame where "frame = dcp_mutation_frame item0 [0, 107] 170 5 0 1 1 0 [] 0 0 7"
  have len: "length frame = 5"
    by (simp add: frame_def dcp_mutation_frame_def item0_def)
  have cl: "concat (map sendbuffer_cleanup_cb (take 5 frame)) = [5]"
    by (simp add: frame_def dcp_mutation_frame_def item0_def)
  have cl2: "concat (map sendbuffer_cleanup_cb (take 2 frame)) = []"
    by (simp add: frame_def dcp_mutation_frame_def item0_def)
  have h1: "(7::16 word) \<noteq> 0" by simp
  have h4: "info_exptime item0 < 2 ^ 32" by (simp add: item0_def)
  have h5: "length [0, 107::8 word] < 2 ^ 8" by simp
  have h6: "3 + 31 + length [0, 107::8 word] + length (info_value item0) + unat (0::16 word) < 2 ^ 32"
    by (simp add: item0_def)
  have g2: "bucket_get_item_info mutation_env0 5 = Some item0"
    by (simp add: mutation_env0_def)
  have g3: "[0, 107] = (if isCollectionsSupported mutation_env0 then info_key item0
                        else makeDocKeyWithoutCollectionID mutation_env0 (info_key item0))"
    by (simp add: mutation_env0_def item0_def)
  have f2: "bucket_get_item_info (mutation_env0\<lparr>libevent_ok := \<lambda>n. n < 2\<rparr>) 5 = Some item0"
    by (simp add: mutation_env0_def)
  have f3: "[0, 107] = (if isCollectionsSupported (mutation_env0\<lparr>libevent_ok := \<lambda>n. n < 2\<rparr>)
                        then info_key item0
                        else makeDocKeyWithoutCollectionID (mutation_env0\<lparr>libevent_ok := \<lambda>n. n < 2\<rparr>)
                               (info_key item0))"
    by (simp add: mutation_env0_def item0_def)
  obtain r k where a: "mutation mutation_env0 170 5 0 1 1 0 [] 0 0 7 ostream0 = Inr r"
      "k \<le> length frame"
      "k < length frame \<longrightarrow> \<not> libevent_ok mutation_env0 (calls ostream0 + k)"
      "segments (stream r) = segments ostream0 @ take k frame"
      "returned r = (if k = length frame then ENGINE_SUCCESS else ENGINE_DISCONNECT)"
      "released r @ concat (map sendbuffer_cleanup_cb (take k frame)) = [5]"
    using mutation_with_stream_id [OF h1 g2 g3 h4 h5 h6 frame_def, where st = ostream0]
    by blast
  have k5: "k = 5"
    using a(2,3) len by (simp add: mutation_env0_def)
  obtain r' j where b: "mutation (mutation_env0\<lparr>libevent_ok := \<lambda>n. n < 2\<rparr>) 170 5 0 1 1 0 [] 0 0 7 ostream0 = Inr r'"
      "\<forall>n < j. libevent_ok (mutation_env0\<lparr>libevent_ok := \<lambda>n. n < 2\<rparr>) (calls ostream0 + n)"
      "j < length frame \<longrightarrow> \<not> libevent_ok (mutation_env0\<lparr>libevent_ok := \<lambda>n. n < 2\<rparr>) (calls ostream0 + j)"
      "segments (stream r') = segments ostream0 @ take j frame"
      "returned r' = (if j = length frame then ENGINE_SUCCESS else ENGINE_DISCONNECT)"
      "released r' @ concat (map sendbuffer_cleanup_cb (take j frame)) = [5]"
    using mutation_with_stream_id [OF h1 f2 f3 h4 h5 h6 frame_def, where st = ostream0]
    by blast
  have "\<not> 2 < j"
  proof
    assume "2 < j"
    then have "libevent_ok (mutation_env0\<lparr>libevent_ok := \<lambda>n. n < 2\<rparr>) (calls ostream0 + 2)"
      using b(2) by blast
    then show False by (simp add: ostream0_def)
  qed
  moreover have "\<not> j < 2"
    using b(3) len by (auto simp: ostream0_def)
  ultimately have j2: "j = 2" by simp
  have "returned r = ENGINE_SUCCESS \<and> segments (stream r) = frame \<and> released r = []"
    using a(4,5,6) k5 len cl by (simp add: ostream0_def)
  moreover have "returned r' = ENGINE_DISCONNECT \<and> segments (stream r') = take 2 frame \<and>
                 released r' = [5]"
    using b(4,5,6) j2 len cl2 by (simp add: ostream0_def)
  ultimately show ?thesis
    using a(1) b(1) unfolding frame_def by blast
qed

end
